theory Spec2Isabelle
  imports Main "HOL-Library.Word" "HOL-Library.Sublist"
begin

section \<open>The secret updater of cdk-sops-secrets-management\<close>

text \<open>
  A shallow embedding of \<^verbatim>\<open>src/lib/sops-secret.secret-updater.ts\<close>, the handler
  that a custom resource invokes on Create, Update and Delete. The handler is a
  sequence of awaited calls to collaborators outside the repository (the object store,
  the \<^verbatim>\<open>sops\<close> executable, the secret store). Each call is a \<open>command\<close>; the
  collaborators are an environment that answers a command with an error or a
  response and moves to a new world; the handler threads the world and records every
  call it makes, with its answer, in a trace.
\<close>

subsection \<open>Data\<close>

text \<open>
  A JavaScript string is a sequence of UTF-16 code units. The secret's content is
  modelled so, because \<^verbatim>\<open>String.prototype.trim\<close> is defined on code units;
  names, keys and policies are only compared and passed on, and are HOL strings.
\<close>

type_synonym js_text = "16 word list"

text \<open>\<^verbatim>\<open>SecretType: 'json' | 'yaml' | 'dotenv' | 'txt'\<close>\<close>

datatype SecretType = Json | Yaml | Dotenv | Txt

text \<open>
  \<^verbatim>\<open>SecretTags\<close> and \<^verbatim>\<open>SecretReplicaRegions\<close> are JSON texts. A text is
  represented by what the handler can observe of it: that it is the empty string
  (falsy), that \<^verbatim>\<open>JSON.parse\<close> throws on it, or the value it parses to. An
  undefined property is \<open>None\<close>.
\<close>

datatype 'a json_text = EmptyText | Malformed | Parses 'a

text \<open>An entry of \<^verbatim>\<open>SecretReplicaRegions\<close>: \<^verbatim>\<open>{ region: string; kmsKeyId?: string }\<close>.\<close>

record replica_region =
  region :: string
  kmsKeyId :: "string option"

record ResourceProperties =
  SecretName :: string
  SecretType :: SecretType
  S3BucketName :: string
  S3ObjectKey :: string
  SecretKmsKeyArn :: "string option"
  SecretDescription :: "string option"
  SecretTags :: "(string \<times> string) list json_text option"
  SecretPolicy :: "string option"
  SecretReplicaRegions :: "replica_region list json_text option"

text \<open>
  An event. \<^verbatim>\<open>RequestType\<close> is read \<^verbatim>\<open>as string\<close>, so it is any string.
  The three event interfaces are one record: a handler reads only the fields its
  interface declares.
\<close>

record Event =
  RequestType :: string
  ResourceProperties :: ResourceProperties
  PhysicalResourceId :: string

text \<open>
  The \<^verbatim>\<open>Response\<close> interface; its field \<^verbatim>\<open>PhysicalResourceId\<close> is named apart
  from the event's.
\<close>

record Response =
  ResponsePhysicalResourceId :: string

text \<open>The secret store's \<^verbatim>\<open>Tag\<close> and \<^verbatim>\<open>ReplicationStatusType\<close>.\<close>

record Tag =
  Key :: string
  Value :: string

record ReplicationStatusType =
  Region :: string
  KmsKeyId :: "string option"
  Status :: string

text \<open>
  The commands the handler sends, with the fields it sets. \<open>ExecSops content inputType\<close>
  is the \<^verbatim>\<open>exec\<close> of the shell line
  \<^verbatim>\<open>echo '${content}' | /opt/sops -d --input-type ${inputType} --output-type ${inputType} -d /dev/stdin\<close>.
  \<open>UpdateSecretCommand\<close> and \<open>CreateSecretCommand\<close> carry the name, the description,
  the secret string and the key; \<open>DeleteSecretCommand\<close> carries
  \<^verbatim>\<open>ForceDeleteWithoutRecovery\<close>; an entry of \<^verbatim>\<open>AddReplicaRegions\<close> is the pair
  of its \<^verbatim>\<open>Region\<close> and \<^verbatim>\<open>KmsKeyId\<close>.
\<close>

datatype command =
    GetObjectCommand string string
  | ExecSops js_text SecretType
  | DescribeSecretCommand string
  | UpdateSecretCommand string "string option" js_text "string option"
  | CreateSecretCommand string "string option" js_text "string option"
  | UntagResourceCommand string "string list"
  | TagResourceCommand string "Tag list"
  | PutResourcePolicyCommand string string
  | DeleteResourcePolicyCommand string
  | RemoveRegionsFromReplicationCommand string "string list"
  | ReplicateSecretToRegionsCommand string "(string \<times> string option) list"
  | DeleteSecretCommand string bool

text \<open>
  What a promise rejects with: the store's \<^verbatim>\<open>ResourceNotFoundException\<close>, an
  \<^verbatim>\<open>Error\<close> with its message, the error of \<open>decodeSops\<close> (its message ends with the
  diagnostic output), the \<^verbatim>\<open>SyntaxError\<close> of \<^verbatim>\<open>JSON.parse\<close>, and any other
  failure of a collaborator.
\<close>

datatype error =
    ResourceNotFoundException
  | Error string
  | SopsCommandFailed js_text
  | SyntaxError
  | ServiceFailure string

text \<open>
  A \<^verbatim>\<open>Readable\<close>, by what its events amount to: \<open>utf8\<close> is the string that the
  bytes of all its \<^verbatim>\<open>data\<close> chunks, joined, decode to; \<open>failure\<close> is the error of
  its \<^verbatim>\<open>error\<close> event, if it emits one and not \<^verbatim>\<open>end\<close>.
\<close>

datatype readable = Readable (utf8: js_text) (failure: "error option")

text \<open>
  What a call resolves to. One record serves every command; a command reads the fields
  of its own output: \<open>Body\<close>, \<open>stdout\<close> and \<open>stderr\<close>, \<open>Tags\<close> and
  \<open>ReplicationStatus\<close> (both optional in the store's \<^verbatim>\<open>DescribeSecretResponse\<close>).
\<close>

record response =
  Body :: readable
  stdout :: js_text
  stderr :: js_text
  Tags :: "Tag list option"
  ReplicationStatus :: "ReplicationStatusType list option"

type_synonym call = "command \<times> (error + response)"

type_synonym 'w env = "command \<Rightarrow> 'w \<Rightarrow> (error + response) \<times> 'w"

type_synonym ('w, 'a) io = "'w \<times> call list \<Rightarrow> (error + 'a) \<times> ('w \<times> call list)"

subsection \<open>Promises\<close>

definition resolve :: "'a \<Rightarrow> ('w, 'a) io" where
  "resolve x = (\<lambda>s. (Inr x, s))"

definition reject :: "error \<Rightarrow> ('w, 'a) io" where
  "reject e = (\<lambda>s. (Inl e, s))"

text \<open>\<^verbatim>\<open>const x = await m; ...\<close>: a rejection of \<open>m\<close> skips the rest.\<close>

definition await :: "('w, 'a) io \<Rightarrow> ('a \<Rightarrow> ('w, 'b) io) \<Rightarrow> ('w, 'b) io" where
  "await m f = (\<lambda>s. case m s of (Inl e, s') \<Rightarrow> (Inl e, s') | (Inr x, s') \<Rightarrow> f x s')"

text \<open>\<^verbatim>\<open>try { m } catch (err) { h }\<close>\<close>

definition try_catch :: "('w, 'a) io \<Rightarrow> (error \<Rightarrow> ('w, 'a) io) \<Rightarrow> ('w, 'a) io" where
  "try_catch m h = (\<lambda>s. case m s of (Inl e, s') \<Rightarrow> h e s' | (Inr x, s') \<Rightarrow> (Inr x, s'))"

text \<open>\<^verbatim>\<open>client.send(command)\<close> and \<^verbatim>\<open>exec(...)\<close>: the environment answers, the call is recorded.\<close>

definition send :: "'w env \<Rightarrow> command \<Rightarrow> ('w, response) io" where
  "send env c = (\<lambda>(w, tr). case env c w of (r, w') \<Rightarrow> (r, (w', tr @ [(c, r)])))"

subsection \<open>String.prototype.trim\<close>

text \<open>
  ECMAScript's \<^verbatim>\<open>WhiteSpace\<close> and \<^verbatim>\<open>LineTerminator\<close> code points: TAB, LF, VT,
  FF, CR, the space separators (U+0020, U+00A0, U+1680, U+2000 to U+200A, U+202F, U+205F,
  U+3000), LS, PS and U+FEFF.
\<close>

definition isWhiteSpace :: "16 word \<Rightarrow> bool" where
  "isWhiteSpace c \<longleftrightarrow>
     c \<in> {0x0009, 0x000A, 0x000B, 0x000C, 0x000D, 0x0020, 0x00A0, 0x1680,
          0x2028, 0x2029, 0x202F, 0x205F, 0x3000, 0xFEFF}
     \<or> (0x2000 \<le> c \<and> c \<le> 0x200A)"

definition trim :: "js_text \<Rightarrow> js_text" where
  "trim s = rev (dropWhile isWhiteSpace (rev (dropWhile isWhiteSpace s)))"

subsection \<open>The handler\<close>

text \<open>
  \<^verbatim>\<open>streamToString\<close>, lines 63 to 70: at \<^verbatim>\<open>end\<close> the chunks are joined and
  decoded once; an \<^verbatim>\<open>error\<close> rejects.
\<close>

definition streamToString :: "readable \<Rightarrow> ('w, js_text) io" where
  "streamToString stream =
     (case failure stream of
        Some err \<Rightarrow> reject err
      | None \<Rightarrow> resolve (utf8 stream))"

text \<open>\<^verbatim>\<open>decodeSops\<close>, lines 72 to 83. \<^verbatim>\<open>if (stderr)\<close> holds of a non-empty string.\<close>

definition decodeSops :: "'w env \<Rightarrow> js_text \<Rightarrow> SecretType \<Rightarrow> ('w, js_text) io" where
  "decodeSops env content inputType =
     await (send env (ExecSops content inputType)) (\<lambda>out.
       if stderr out \<noteq> [] then reject (SopsCommandFailed (stderr out))
       else resolve (stdout out))"

text \<open>\<^verbatim>\<open>props.X ? JSON.parse(props.X) : []\<close>, lines 143 to 145 and 194 to 200.\<close>

definition parseOrEmpty :: "'a list json_text option \<Rightarrow> ('w, 'a list) io" where
  "parseOrEmpty p =
     (case p of
        None \<Rightarrow> resolve []
      | Some EmptyText \<Rightarrow> resolve []
      | Some Malformed \<Rightarrow> reject SyntaxError
      | Some (Parses v) \<Rightarrow> resolve v)"

text \<open>\<^verbatim>\<open>xs?.length\<close> as a condition: defined and not empty.\<close>

definition hasLength :: "'a list option \<Rightarrow> bool" where
  "hasLength xs = (case xs of None \<Rightarrow> False | Some ys \<Rightarrow> ys \<noteq> [])"

text \<open>A string property as a condition: defined and not the empty string.\<close>

definition truthy :: "string option \<Rightarrow> bool" where
  "truthy p = (case p of None \<Rightarrow> False | Some s \<Rightarrow> s \<noteq> [])"

text \<open>\<^verbatim>\<open>if (b) { await m }\<close>\<close>

definition whenever :: "bool \<Rightarrow> ('w, 'a) io \<Rightarrow> ('w, unit) io" where
  "whenever b m = (if b then await m (\<lambda>_. resolve ()) else resolve ())"

text \<open>
  \<^verbatim>\<open>upsertSecret\<close>, lines 85 to 231, in two parts. \<open>upsertSecret_tail\<close> is the
  statements after the existence check, lines 121 to 230, as a function of the variables
  then in scope: the write (121 to 140), the tags (142 to 171), the policy (173 to
  191), the replica regions (193 to 230). \<open>upsertSecret\<close> is the fetch and the decoding
  (87 to 98) and the existence check (100 to 119), followed by them.
\<close>

definition upsertSecret_tail ::
  "'w env \<Rightarrow> ResourceProperties \<Rightarrow> js_text \<Rightarrow> bool \<Rightarrow> Tag list option \<Rightarrow>
   ReplicationStatusType list option \<Rightarrow> ('w, unit) io" where
  "upsertSecret_tail env props decodedSecret secretExists existingTags existingReplicaRegions =
     await (if secretExists
            then send env (UpdateSecretCommand (SecretName props) (SecretDescription props)
                             (trim decodedSecret) (SecretKmsKeyArn props))
            else send env (CreateSecretCommand (SecretName props) (SecretDescription props)
                             (trim decodedSecret) (SecretKmsKeyArn props))) (\<lambda>_.
     await (parseOrEmpty (SecretTags props)) (\<lambda>newTags.
     await (whenever (hasLength existingTags)
              (let tagKeys = map fst newTags;
                   tagsToRemove = filter (\<lambda>t. Key t \<notin> set tagKeys) (the existingTags)
               in whenever (tagsToRemove \<noteq> [])
                    (send env (UntagResourceCommand (SecretName props)
                                 (map Key (the existingTags)))))) (\<lambda>_.
     await (whenever (newTags \<noteq> [])
              (send env (TagResourceCommand (SecretName props)
                           (map (\<lambda>(k, v). \<lparr>Key = k, Value = v\<rparr>) newTags)))) (\<lambda>_.
     await (if truthy (SecretPolicy props)
            then await (send env (PutResourcePolicyCommand (SecretName props)
                                    (the (SecretPolicy props)))) (\<lambda>_. resolve ())
            else try_catch
                   (await (send env (DeleteResourcePolicyCommand (SecretName props)))
                      (\<lambda>_. resolve ()))
                   (\<lambda>err. if err \<noteq> ResourceNotFoundException then reject err
                           else resolve ())) (\<lambda>_.
     await (parseOrEmpty (SecretReplicaRegions props)) (\<lambda>newReplicatRegions.
     await (whenever (secretExists \<and> hasLength existingReplicaRegions)
              (let regionNames = map region newReplicatRegions;
                   existingRegionNames = map Region (the existingReplicaRegions);
                   regionsToRemove =
                     filter (\<lambda>regionName. regionName \<notin> set regionNames) existingRegionNames
               in whenever (regionsToRemove \<noteq> [])
                    (send env (RemoveRegionsFromReplicationCommand (SecretName props)
                                 regionsToRemove)))) (\<lambda>_.
     whenever (newReplicatRegions \<noteq> [])
       (send env (ReplicateSecretToRegionsCommand (SecretName props)
                    (map (\<lambda>r. (region r, kmsKeyId r)) newReplicatRegions))))))))))"

definition upsertSecret :: "'w env \<Rightarrow> ResourceProperties \<Rightarrow> ('w, unit) io" where
  "upsertSecret env props =
     await (send env (GetObjectCommand (S3BucketName props) (S3ObjectKey props))) (\<lambda>response.
     await (streamToString (Body response)) (\<lambda>secretBody.
     await (decodeSops env secretBody (SecretType props)) (\<lambda>decodedSecret.
     await (try_catch
              (await (send env (DescribeSecretCommand (SecretName props))) (\<lambda>response.
                 resolve (True, Tags response, ReplicationStatus response)))
              (\<lambda>err. if err = ResourceNotFoundException then resolve (False, None, None)
                      else reject err))
       (\<lambda>(secretExists, existingTags, existingReplicaRegions).
     upsertSecret_tail env props decodedSecret secretExists existingTags
       existingReplicaRegions))))"

text \<open>\<^verbatim>\<open>handleCreate\<close>, lines 233 to 240.\<close>

definition handleCreate :: "'w env \<Rightarrow> Event \<Rightarrow> ('w, Response) io" where
  "handleCreate env event =
     (let props = ResourceProperties event in
      await (upsertSecret env props) (\<lambda>_.
      resolve \<lparr>ResponsePhysicalResourceId = SecretName props\<rparr>))"

text \<open>\<^verbatim>\<open>handleUpdate\<close>, lines 242 to 249.\<close>

definition handleUpdate :: "'w env \<Rightarrow> Event \<Rightarrow> ('w, Response) io" where
  "handleUpdate env event =
     (let props = ResourceProperties event in
      await (upsertSecret env props) (\<lambda>_.
      resolve \<lparr>ResponsePhysicalResourceId = PhysicalResourceId event\<rparr>))"

text \<open>
  \<^verbatim>\<open>handleDelete\<close>, lines 251 to 290. The \<^verbatim>\<open>catch\<close> block returns from the
  handler, so the rest runs only when the describe call resolved.
\<close>

definition handleDelete :: "'w env \<Rightarrow> Event \<Rightarrow> ('w, Response) io" where
  "handleDelete env event =
     await (try_catch
              (await (send env (DescribeSecretCommand (PhysicalResourceId event)))
                 (\<lambda>r. resolve (Some r)))
              (\<lambda>err. if err \<noteq> ResourceNotFoundException then reject err else resolve None))
       (\<lambda>describeSecretResponse.
     case describeSecretResponse of
       None \<Rightarrow> resolve \<lparr>ResponsePhysicalResourceId = PhysicalResourceId event\<rparr>
     | Some describeSecretResponse \<Rightarrow>
         await (whenever (hasLength (ReplicationStatus describeSecretResponse))
                  (send env (RemoveRegionsFromReplicationCommand (PhysicalResourceId event)
                               (map Region (the (ReplicationStatus describeSecretResponse)))))) (\<lambda>_.
         await (send env (DeleteSecretCommand (PhysicalResourceId event) True)) (\<lambda>_.
         resolve \<lparr>ResponsePhysicalResourceId = PhysicalResourceId event\<rparr>)))"

text \<open>
  \<^verbatim>\<open>onEvent\<close>, lines 292 to 307. The \<^verbatim>\<open>try\<close> block either returns a handler's
  promise, which it does not await, or throws; the \<^verbatim>\<open>catch\<close> block replaces what
  was thrown.
\<close>

definition onEvent :: "'w env \<Rightarrow> Event \<Rightarrow> ('w, Response) io" where
  "onEvent env event =
     (case (let eventType = RequestType event in
            if eventType = ''Create'' then Inr (handleCreate env event)
            else if eventType = ''Update'' then Inr (handleUpdate env event)
            else if eventType = ''Delete'' then Inr (handleDelete env event)
            else Inl (Error (''Unknown event type '' @ eventType)))
      of Inr promise \<Rightarrow> promise
       | Inl err \<Rightarrow> reject (Error ''Failed''))"

section \<open>Observing a run\<close>

text \<open>
  The calls whose "not found" answer the handler catches: the describe calls (lines 113 to
  119 and 261 to 268) and the clearing of the resource policy (lines 188 to 190).
\<close>

fun catches_not_found :: "command \<Rightarrow> bool" where
  "catches_not_found (DescribeSecretCommand n) = True"
| "catches_not_found (DeleteResourcePolicyCommand n) = True"
| "catches_not_found _ = False"

text \<open>A call that failed for the handler: it rejected, and no \<^verbatim>\<open>catch\<close> let it pass.\<close>

definition broke :: "call \<Rightarrow> bool" where
  "broke c = (case snd c of
                Inr _ \<Rightarrow> False
              | Inl e \<Rightarrow> \<not> (e = ResourceNotFoundException \<and> catches_not_found (fst c)))"

text \<open>
  The errors an upsert throws itself: of \<open>decodeSops\<close> and of \<^verbatim>\<open>JSON.parse\<close>; and
  the errors thrown with no call failing, given how the stream of the object ends.
\<close>

fun internal :: "error \<Rightarrow> bool" where
  "internal SyntaxError = True"
| "internal (SopsCommandFailed t) = True"
| "internal _ = False"

definition thrown :: "error option \<Rightarrow> error \<Rightarrow> bool" where
  "thrown s e \<longleftrightarrow> internal e \<or> s = Some e"

text \<open>How the stream of the fetched object ends, read off a trace.\<close>

definition stream_failure :: "call list \<Rightarrow> error option" where
  "stream_failure tr =
     (case tr of
        (GetObjectCommand b k, Inr obj) # rest \<Rightarrow> failure (Body obj)
      | _ \<Rightarrow> None)"

text \<open>The value of a JSON property where the handler gets one: \<open>[]\<close> when it is absent or empty.\<close>

definition parsed :: "'a list json_text option \<Rightarrow> 'a list" where
  "parsed p = (case p of Some (Parses v) \<Rightarrow> v | _ \<Rightarrow> [])"

text \<open>
  \<open>yields m Q\<close>: every run of \<open>m\<close> appends calls to the trace, and \<open>Q\<close> holds of the
  calls it appended and of its result.
\<close>

definition yields :: "('w, 'a) io \<Rightarrow> (call list \<Rightarrow> error + 'a \<Rightarrow> bool) \<Rightarrow> bool" where
  "yields m Q \<longleftrightarrow> (\<forall>w tr r w' tr'. m (w, tr) = (r, (w', tr')) \<longrightarrow> (\<exists>new. tr' = tr @ new \<and> Q new r))"

text \<open>
  How calls and result relate: a run that resolves has no broken call; a run that rejects
  either threw the error itself, with no broken call, or rejects with the error of its last
  call, the only broken one.
\<close>

definition outcome :: "error option \<Rightarrow> call list \<Rightarrow> error + 'a \<Rightarrow> bool" where
  "outcome s new r =
     (case r of
        Inr _ \<Rightarrow> \<not> list_ex broke new
      | Inl e \<Rightarrow> (thrown s e \<and> \<not> list_ex broke new) \<or>
                 (new \<noteq> [] \<and> snd (last new) = Inl e \<and> broke (last new) \<and>
                  \<not> list_ex broke (butlast new)))"

text \<open>
  What stops an upsert with no call failing, besides the stream: a decrypt step that wrote
  to its diagnostic output, and a JSON property that does not parse.
\<close>

fun noisy :: "call \<Rightarrow> bool" where
  "noisy (ExecSops content t, Inr out) = (stderr out \<noteq> [])"
| "noisy _ = False"

definition malformed :: "ResourceProperties \<Rightarrow> bool" where
  "malformed props \<longleftrightarrow>
     SecretTags props = Some Malformed \<or> SecretReplicaRegions props = Some Malformed"

text \<open>A run proceeds: it rejects only when a call broke or, with \<open>M\<close>, a property is malformed.\<close>

definition proceeds :: "bool \<Rightarrow> call list \<Rightarrow> error + 'a \<Rightarrow> bool" where
  "proceeds M new r \<longleftrightarrow> (isl r \<longrightarrow> M \<or> list_ex broke new)"

text \<open>
  A run follows a plan: it resolves having made the planned calls, or rejects having made
  a prefix of them.
\<close>

definition follows :: "command list \<Rightarrow> call list \<Rightarrow> error + 'a \<Rightarrow> bool" where
  "follows plan new r =
     (case r of Inr _ \<Rightarrow> map fst new = plan | Inl _ \<Rightarrow> prefix (map fst new) plan)"

text \<open>
  The calls of \<open>upsertSecret_tail\<close>, read off its conditions: the write, the tag calls,
  the policy call, the replica-region calls.
\<close>

definition write_call :: "ResourceProperties \<Rightarrow> js_text \<Rightarrow> bool \<Rightarrow> command" where
  "write_call props decoded secretExists =
     (if secretExists
      then UpdateSecretCommand (SecretName props) (SecretDescription props) (trim decoded)
             (SecretKmsKeyArn props)
      else CreateSecretCommand (SecretName props) (SecretDescription props) (trim decoded)
             (SecretKmsKeyArn props))"

definition tag_calls :: "ResourceProperties \<Rightarrow> Tag list option \<Rightarrow> command list" where
  "tag_calls props existingTags =
     (if hasLength existingTags \<and>
         filter (\<lambda>t. Key t \<notin> set (map fst (parsed (SecretTags props)))) (the existingTags) \<noteq> []
      then [UntagResourceCommand (SecretName props) (map Key (the existingTags))] else []) @
     (if parsed (SecretTags props) \<noteq> []
      then [TagResourceCommand (SecretName props)
              (map (\<lambda>(k, v). \<lparr>Key = k, Value = v\<rparr>) (parsed (SecretTags props)))]
      else [])"

definition policy_call :: "ResourceProperties \<Rightarrow> command" where
  "policy_call props =
     (if truthy (SecretPolicy props)
      then PutResourcePolicyCommand (SecretName props) (the (SecretPolicy props))
      else DeleteResourcePolicyCommand (SecretName props))"

definition region_calls ::
  "ResourceProperties \<Rightarrow> bool \<Rightarrow> ReplicationStatusType list option \<Rightarrow> command list" where
  "region_calls props secretExists existingReplicaRegions =
     (if (secretExists \<and> hasLength existingReplicaRegions) \<and>
         filter (\<lambda>n. n \<notin> set (map region (parsed (SecretReplicaRegions props))))
           (map Region (the existingReplicaRegions)) \<noteq> []
      then [RemoveRegionsFromReplicationCommand (SecretName props)
              (filter (\<lambda>n. n \<notin> set (map region (parsed (SecretReplicaRegions props))))
                 (map Region (the existingReplicaRegions)))]
      else []) @
     (if parsed (SecretReplicaRegions props) \<noteq> []
      then [ReplicateSecretToRegionsCommand (SecretName props)
              (map (\<lambda>r. (region r, kmsKeyId r)) (parsed (SecretReplicaRegions props)))]
      else [])"

definition upsert_calls ::
  "ResourceProperties \<Rightarrow> js_text \<Rightarrow> bool \<Rightarrow> Tag list option \<Rightarrow>
   ReplicationStatusType list option \<Rightarrow> command list" where
  "upsert_calls props decoded secretExists existingTags existingReplicaRegions =
     write_call props decoded secretExists # tag_calls props existingTags @
     policy_call props # region_calls props secretExists existingReplicaRegions"

text \<open>
  The runs of \<open>upsertSecret\<close> by where they end: at the fetch, at the reading of the
  stream, at the decrypt step, at its diagnostic output, at the existence check, or in the
  tail, after a "not found" or after a describe response.
\<close>

definition shape :: "ResourceProperties \<Rightarrow> call list \<Rightarrow> error + unit \<Rightarrow> bool" where
  "shape props new res \<longleftrightarrow>
     (\<exists>e. new = [(GetObjectCommand (S3BucketName props) (S3ObjectKey props), Inl e)] \<and>
          res = Inl e) \<or>
     (\<exists>obj e. new = [(GetObjectCommand (S3BucketName props) (S3ObjectKey props), Inr obj)] \<and>
          failure (Body obj) = Some e \<and> res = Inl e) \<or>
     (\<exists>obj e. new = [(GetObjectCommand (S3BucketName props) (S3ObjectKey props), Inr obj),
                     (ExecSops (utf8 (Body obj)) (SecretType props), Inl e)] \<and>
          failure (Body obj) = None \<and> res = Inl e) \<or>
     (\<exists>obj out. new = [(GetObjectCommand (S3BucketName props) (S3ObjectKey props), Inr obj),
                       (ExecSops (utf8 (Body obj)) (SecretType props), Inr out)] \<and>
          failure (Body obj) = None \<and>
          stderr out \<noteq> [] \<and> res = Inl (SopsCommandFailed (stderr out))) \<or>
     (\<exists>obj out e. new = [(GetObjectCommand (S3BucketName props) (S3ObjectKey props), Inr obj),
                       (ExecSops (utf8 (Body obj)) (SecretType props), Inr out),
                       (DescribeSecretCommand (SecretName props), Inl e)] \<and>
          failure (Body obj) = None \<and>
          stderr out = [] \<and> e \<noteq> ResourceNotFoundException \<and> res = Inl e) \<or>
     (\<exists>obj out rest.
          new = (GetObjectCommand (S3BucketName props) (S3ObjectKey props), Inr obj) #
                (ExecSops (utf8 (Body obj)) (SecretType props), Inr out) #
                (DescribeSecretCommand (SecretName props), Inl ResourceNotFoundException) # rest \<and>
          failure (Body obj) = None \<and> stderr out = [] \<and>
          follows (upsert_calls props (stdout out) False None None) rest res \<and>
          proceeds (malformed props) rest res \<and>
          (\<exists>r0 rest'. rest = (write_call props (stdout out) False, r0) # rest')) \<or>
     (\<exists>obj out resp rest.
          new = (GetObjectCommand (S3BucketName props) (S3ObjectKey props), Inr obj) #
                (ExecSops (utf8 (Body obj)) (SecretType props), Inr out) #
                (DescribeSecretCommand (SecretName props), Inr resp) # rest \<and>
          failure (Body obj) = None \<and> stderr out = [] \<and>
          follows (upsert_calls props (stdout out) True (Tags resp) (ReplicationStatus resp))
            rest res \<and>
          proceeds (malformed props) rest res \<and>
          (\<exists>r0 rest'. rest = (write_call props (stdout out) True, r0) # rest'))"

section \<open>The collaborators\<close>

text \<open>
  Modelled from the spec: the collaborators of section 6, which are outside the repository:
  the blob source (\<open>fetch(locator) -> bytes | NotFound\<close>), the decrypt capability
  (\<open>decrypt(bytes, format) -> plaintext | DecryptError\<close>, here with its diagnostic
  output) and the remote secret store with the operations the handler consumes:
  describe-by-name, create, update-value, delete with the permanent-delete flag, tag and
  untag, put and delete resource-policy, add and remove replica regions, each failing with
  "resource not found" or a generic failure. A tag is set by key; deleting the policy of a
  secret that has none answers "not found" ("no policy attached"); adding a region that is
  present is a no-op.
\<close>

record secret =
  SecretString :: js_text
  Description :: "string option"
  KmsKey :: "string option"
  secret_tags :: "Tag list"
  ResourcePolicy :: "string option"
  replicas :: "ReplicationStatusType list"

record world =
  objects :: "string \<times> string \<Rightarrow> js_text option"
  sops :: "js_text \<Rightarrow> SecretType \<Rightarrow> error + js_text \<times> js_text"
  secrets :: "string \<Rightarrow> secret option"

text \<open>A response with nothing in it; a tag is set by key; a replica is added once.\<close>

definition blank :: response where
  "blank = \<lparr>Body = Readable [] None, stdout = [], stderr = [], Tags = None, ReplicationStatus = None\<rparr>"

definition put_tag :: "Tag \<Rightarrow> Tag list \<Rightarrow> Tag list" where
  "put_tag t ts = filter (\<lambda>u. Key u \<noteq> Key t) ts @ [t]"

definition add_replica ::
  "string \<times> string option \<Rightarrow> ReplicationStatusType list \<Rightarrow> ReplicationStatusType list" where
  "add_replica a rs =
     (if fst a \<in> set (map Region rs) then rs
      else rs @ [\<lparr>Region = fst a, KmsKeyId = snd a, Status = ''InSync''\<rparr>])"

text \<open>An operation on a secret by name: "not found" when there is none.\<close>

definition on_secret :: "string \<Rightarrow> (secret \<Rightarrow> secret) \<Rightarrow> world \<Rightarrow> (error + response) \<times> world" where
  "on_secret n f w =
     (case secrets w n of
        None \<Rightarrow> (Inl ResourceNotFoundException, w)
      | Some s \<Rightarrow> (Inr blank, w\<lparr>secrets := (secrets w)(n \<mapsto> f s)\<rparr>))"

text \<open>
  Modelled from the spec: what the collaborators answer to each command of the handler, and
  the store they leave.
\<close>

fun store_env :: "world env" where
  "store_env (GetObjectCommand b k) w =
     (case objects w (b, k) of
        None \<Rightarrow> (Inl (ServiceFailure ''NoSuchKey''), w)
      | Some body \<Rightarrow> (Inr (blank\<lparr>Body := Readable body None\<rparr>), w))"
| "store_env (ExecSops content t) w =
     (case sops w content t of
        Inl e \<Rightarrow> (Inl e, w)
      | Inr (out, err) \<Rightarrow> (Inr (blank\<lparr>stdout := out, stderr := err\<rparr>), w))"
| "store_env (DescribeSecretCommand n) w =
     (case secrets w n of
        None \<Rightarrow> (Inl ResourceNotFoundException, w)
      | Some s \<Rightarrow>
          (Inr (blank\<lparr>Tags := Some (secret_tags s), ReplicationStatus := Some (replicas s)\<rparr>), w))"
| "store_env (UpdateSecretCommand n d v k) w =
     on_secret n (\<lambda>s. s\<lparr>SecretString := v, Description := d, KmsKey := k\<rparr>) w"
| "store_env (CreateSecretCommand n d v k) w =
     (case secrets w n of
        Some s \<Rightarrow> (Inl (ServiceFailure ''ResourceExistsException''), w)
      | None \<Rightarrow>
          (Inr blank,
           w\<lparr>secrets := (secrets w)(n \<mapsto>
               \<lparr>SecretString = v, Description = d, KmsKey = k, secret_tags = [],
                ResourcePolicy = None, replicas = []\<rparr>)\<rparr>))"
| "store_env (UntagResourceCommand n ks) w =
     on_secret n (\<lambda>s. s\<lparr>secret_tags := filter (\<lambda>t. Key t \<notin> set ks) (secret_tags s)\<rparr>) w"
| "store_env (TagResourceCommand n ts) w =
     on_secret n (\<lambda>s. s\<lparr>secret_tags := fold put_tag ts (secret_tags s)\<rparr>) w"
| "store_env (PutResourcePolicyCommand n p) w =
     on_secret n (\<lambda>s. s\<lparr>ResourcePolicy := Some p\<rparr>) w"
| "store_env (DeleteResourcePolicyCommand n) w =
     (case secrets w n of
        None \<Rightarrow> (Inl ResourceNotFoundException, w)
      | Some s \<Rightarrow>
          (case ResourcePolicy s of
             None \<Rightarrow> (Inl ResourceNotFoundException, w)
           | Some p \<Rightarrow> on_secret n (\<lambda>s. s\<lparr>ResourcePolicy := None\<rparr>) w))"
| "store_env (RemoveRegionsFromReplicationCommand n rs) w =
     on_secret n (\<lambda>s. s\<lparr>replicas := filter (\<lambda>r. Region r \<notin> set rs) (replicas s)\<rparr>) w"
| "store_env (ReplicateSecretToRegionsCommand n adds) w =
     on_secret n (\<lambda>s. s\<lparr>replicas := fold add_replica adds (replicas s)\<rparr>) w"
| "store_env (DeleteSecretCommand n force) w =
     (case secrets w n of
        None \<Rightarrow> (Inl ResourceNotFoundException, w)
      | Some s \<Rightarrow> (Inr blank, if force then w\<lparr>secrets := (secrets w)(n := None)\<rparr> else w))"

text \<open>
  An example: the secret \<open>app\<close> with tags \<open>env: staging\<close> and \<open>team: x\<close>, no policy
  and two replica regions; desired are the tag \<open>env: prod\<close>, no policy and the region
  \<open>us-east-1\<close>; the decrypt step prints \<open>" {}\n"\<close>.
\<close>

definition example_secret :: secret where
  "example_secret =
     \<lparr>SecretString = [], Description = None, KmsKey = None,
      secret_tags = [\<lparr>Key = ''env'', Value = ''staging''\<rparr>, \<lparr>Key = ''team'', Value = ''x''\<rparr>],
      ResourcePolicy = None,
      replicas = [\<lparr>Region = ''eu-west-1'', KmsKeyId = None, Status = ''InSync''\<rparr>,
                  \<lparr>Region = ''us-east-1'', KmsKeyId = None, Status = ''InSync''\<rparr>]\<rparr>"

definition example_world :: world where
  "example_world =
     \<lparr>objects = (\<lambda>_. None)((''bucket'', ''key'') \<mapsto> [0x7B]),
      sops = (\<lambda>content t. Inr ([0x20, 0x7B, 0x7D, 0x0A], [])),
      secrets = (\<lambda>_. None)(''app'' \<mapsto> example_secret)\<rparr>"

definition example_props :: ResourceProperties where
  "example_props =
     \<lparr>SecretName = ''app'', SecretType = Json, S3BucketName = ''bucket'', S3ObjectKey = ''key'',
      SecretKmsKeyArn = None, SecretDescription = None,
      SecretTags = Some (Parses [(''env'', ''prod'')]), SecretPolicy = None,
      SecretReplicaRegions = Some (Parses [\<lparr>region = ''us-east-1'', kmsKeyId = None\<rparr>])\<rparr>"

text \<open>The replica-region calls, the resource-policy calls and the tag-removal call.\<close>

fun is_region_call :: "command \<Rightarrow> bool" where
  "is_region_call (RemoveRegionsFromReplicationCommand n rs) = True"
| "is_region_call (ReplicateSecretToRegionsCommand n adds) = True"
| "is_region_call _ = False"


fun is_untag_call :: "command \<Rightarrow> bool" where
  "is_untag_call (UntagResourceCommand n ks) = True"
| "is_untag_call _ = False"

text \<open>The tags and the replica regions in the response of the describe call of a trace.\<close>

fun existing_tags :: "call list \<Rightarrow> Tag list" where
  "existing_tags [] = []"
| "existing_tags ((c, r) # tr) =
     (case c of
        DescribeSecretCommand n \<Rightarrow>
          (case r of
             Inl e \<Rightarrow> []
           | Inr resp \<Rightarrow> (case Tags resp of None \<Rightarrow> [] | Some ts \<Rightarrow> ts))
      | _ \<Rightarrow> existing_tags tr)"

fun existing_regions :: "call list \<Rightarrow> ReplicationStatusType list" where
  "existing_regions [] = []"
| "existing_regions ((c, r) # tr) =
     (case c of
        DescribeSecretCommand n \<Rightarrow>
          (case r of
             Inl e \<Rightarrow> []
           | Inr resp \<Rightarrow> (case ReplicationStatus resp of None \<Rightarrow> [] | Some rs \<Rightarrow> rs))
      | _ \<Rightarrow> existing_regions tr)"

text \<open>
  The decrypt step failed: \<^verbatim>\<open>exec\<close> rejected, or the diagnostic output is not empty;
  and the error \<open>decodeSops\<close> then rejects with.
\<close>

definition decode_error :: "error + response \<Rightarrow> error" where
  "decode_error x = (case x of Inl e \<Rightarrow> e | Inr out \<Rightarrow> SopsCommandFailed (stderr out))"

definition decode_fails :: "error + response \<Rightarrow> bool" where
  "decode_fails x = (case x of Inl e \<Rightarrow> True | Inr out \<Rightarrow> stderr out \<noteq> [])"

text \<open>An event for the example, by its request type.\<close>

definition example_event :: "string \<Rightarrow> Event" where
  "example_event t =
     \<lparr>RequestType = t, ResourceProperties = example_props, PhysicalResourceId = ''app''\<rparr>"

text \<open>The store and the trace after the upsert of the example.\<close>

definition example_after :: world where
  "example_after =
     example_world\<lparr>secrets := (\<lambda>_. None)(''app'' \<mapsto>
       \<lparr>SecretString = [0x7B, 0x7D], Description = None, KmsKey = None,
        secret_tags = [\<lparr>Key = ''env'', Value = ''prod''\<rparr>],
        ResourcePolicy = None,
        replicas = [\<lparr>Region = ''us-east-1'', KmsKeyId = None, Status = ''InSync''\<rparr>]\<rparr>)\<rparr>"

definition example_trace :: "call list" where
  "example_trace =
     [(GetObjectCommand ''bucket'' ''key'', Inr (blank\<lparr>Body := Readable [0x7B] None\<rparr>)),
      (ExecSops [0x7B] Json, Inr (blank\<lparr>stdout := [0x20, 0x7B, 0x7D, 0x0A], stderr := []\<rparr>)),
      (DescribeSecretCommand ''app'',
       Inr (blank\<lparr>Tags := Some (secret_tags example_secret),
                   ReplicationStatus := Some (replicas example_secret)\<rparr>)),
      (UpdateSecretCommand ''app'' None [0x7B, 0x7D] None, Inr blank),
      (UntagResourceCommand ''app'' [''env'', ''team''], Inr blank),
      (TagResourceCommand ''app'' [\<lparr>Key = ''env'', Value = ''prod''\<rparr>], Inr blank),
      (DeleteResourcePolicyCommand ''app'', Inl ResourceNotFoundException),
      (RemoveRegionsFromReplicationCommand ''app'' [''eu-west-1''], Inr blank),
      (ReplicateSecretToRegionsCommand ''app'' [(''us-east-1'', None)], Inr blank)]"

text \<open>An environment that answers the calls in \<open>P\<close> with the error \<open>e\<close>.\<close>

definition refuse :: "(command \<Rightarrow> bool) \<Rightarrow> error \<Rightarrow> 'w env \<Rightarrow> 'w env" where
  "refuse P e env c w = (if P c then (Inl e, w) else env c w)"

text \<open>The tag call.\<close>

fun is_tag_call :: "command \<Rightarrow> bool" where
  "is_tag_call (TagResourceCommand n ts) = True"
| "is_tag_call _ = False"

text \<open>The example with no replica regions desired: the property is absent.\<close>

definition example_props3 :: ResourceProperties where
  "example_props3 = example_props\<lparr>SecretReplicaRegions := None\<rparr>"

text \<open>A decrypt step that writes to its diagnostic output, and a store without the secret.\<close>

definition noisy_world :: world where
  "noisy_world = example_world\<lparr>sops := (\<lambda>content t. Inr ([0x7B], [0x65]))\<rparr>"

definition empty_world :: world where
  "empty_world = example_world\<lparr>secrets := (\<lambda>_. None)\<rparr>"






section \<open>Rules for runs\<close>

lemma yieldsI:
  "(\<And>w tr r w' tr'. m (w, tr) = (r, (w', tr')) \<Longrightarrow> \<exists>new. tr' = tr @ new \<and> Q new r) \<Longrightarrow> yields m Q"
  unfolding yields_def by blast

lemma yieldsD:
  "yields m Q \<Longrightarrow> m (w, tr) = (r, (w', tr')) \<Longrightarrow> \<exists>new. tr' = tr @ new \<and> Q new r"
  unfolding yields_def by blast

lemma yields_weaken:
  "yields m Q \<Longrightarrow> (\<And>new r. Q new r \<Longrightarrow> Q' new r) \<Longrightarrow> yields m Q'"
  unfolding yields_def by blast

lemma yields_resolve: "yields (resolve x) (\<lambda>new r. new = [] \<and> r = Inr x)"
  by (rule yieldsI) (simp add: resolve_def)

lemma yields_send: "yields (send env c) (\<lambda>new r. new = [(c, r)])"
  by (rule yieldsI) (auto simp: send_def split: prod.splits)

lemma yields_await:
  assumes m: "yields m Q" and f: "\<And>x. yields (f x) (R x)"
  shows "yields (await m f)
           (\<lambda>new r. (\<exists>e. r = Inl e \<and> Q new (Inl e)) \<or>
                     (\<exists>x n1 n2. new = n1 @ n2 \<and> Q n1 (Inr x) \<and> R x n2 r))"
proof (rule yieldsI)
  fix w tr r w' tr'
  assume run: "await m f (w, tr) = (r, (w', tr'))"
  obtain r1 w1 tr1 where m1: "m (w, tr) = (r1, (w1, tr1))"
    by (metis prod.exhaust)
  from yieldsD [OF m m1] obtain n1 where n1: "tr1 = tr @ n1" "Q n1 r1" by blast
  show "\<exists>new. tr' = tr @ new \<and>
          ((\<exists>e. r = Inl e \<and> Q new (Inl e)) \<or>
           (\<exists>x n1 n2. new = n1 @ n2 \<and> Q n1 (Inr x) \<and> R x n2 r))"
  proof (cases r1)
    case (Inl e)
    with run m1 have "r = Inl e" "tr' = tr1" by (simp_all add: await_def)
    with n1 Inl show ?thesis by blast
  next
    case (Inr x)
    with run m1 have "f x (w1, tr1) = (r, (w', tr'))" by (simp add: await_def)
    from yieldsD [OF f this] obtain n2 where "tr' = tr1 @ n2" "R x n2 r" by blast
    with n1 Inr show ?thesis by auto
  qed
qed

lemma yields_whenever:
  assumes "yields m Q"
  shows "yields (whenever b m)
           (\<lambda>new r. if b then \<exists>r0. Q new r0 \<and> r = map_sum id (\<lambda>_. ()) r0
                     else new = [] \<and> r = Inr ())"
proof (cases b)
  case True
  have "yields (await m (\<lambda>_. resolve ()))
          (\<lambda>new r. \<exists>r0. Q new r0 \<and> r = map_sum id (\<lambda>_. ()) r0)"
    by (rule yields_weaken [OF yields_await [OF assms yields_resolve]]) auto
  with True show ?thesis by (simp add: whenever_def)
next
  case False
  with yields_resolve [of "()"] show ?thesis by (simp add: whenever_def)
qed

text \<open>A call in a \<^verbatim>\<open>try\<close> block whose \<^verbatim>\<open>catch\<close> lets only "not found" pass.\<close>

lemma yields_caught:
  "yields (try_catch (await (send env c) (\<lambda>x. resolve (g x)))
             (\<lambda>err. if err = ResourceNotFoundException then resolve v else reject err))
     (\<lambda>new r. \<exists>r0. new = [(c, r0)] \<and>
        r = (case r0 of Inr x \<Rightarrow> Inr (g x)
             | Inl e \<Rightarrow> if e = ResourceNotFoundException then Inr v else Inl e))"
  by (rule yieldsI)
     (auto simp: try_catch_def await_def send_def resolve_def reject_def
           split: prod.splits sum.splits if_splits)

lemma yields_caught':
  "yields (try_catch (await (send env c) (\<lambda>x. resolve (g x)))
             (\<lambda>err. if err \<noteq> ResourceNotFoundException then reject err else resolve v))
     (\<lambda>new r. \<exists>r0. new = [(c, r0)] \<and>
        r = (case r0 of Inr x \<Rightarrow> Inr (g x)
             | Inl e \<Rightarrow> if e = ResourceNotFoundException then Inr v else Inl e))"
  by (rule yieldsI)
     (auto simp: try_catch_def await_def send_def resolve_def reject_def
           split: prod.splits sum.splits if_splits)

lemma yields_parseOrEmpty:
  "yields (parseOrEmpty p)
     (\<lambda>new r. new = [] \<and> (if p = Some Malformed then r = Inl SyntaxError else r = Inr (parsed p)))"
  by (rule yieldsI)
     (auto simp: parseOrEmpty_def parsed_def resolve_def reject_def
           split: option.splits json_text.splits)

lemma yields_decodeSops:
  "yields (decodeSops env content inputType)
     (\<lambda>new r. \<exists>r0. new = [(ExecSops content inputType, r0)] \<and>
        r = (case r0 of Inl e \<Rightarrow> Inl e
             | Inr out \<Rightarrow> if stderr out \<noteq> [] then Inl (SopsCommandFailed (stderr out))
                          else Inr (stdout out)))"
  by (rule yieldsI)
     (auto simp: decodeSops_def await_def send_def resolve_def reject_def
           split: prod.splits sum.splits if_splits)

subsection \<open>The outcome of an upsert\<close>

lemma outcome_await:
  fixes m :: "('w, 'a) io" and f :: "'a \<Rightarrow> ('w, 'b) io"
  assumes "yields m (outcome s)" and "\<And>x. yields (f x) (outcome s)"
  shows "yields (await m f) (outcome s)"
proof (rule yields_weaken [OF yields_await [OF assms]])
  fix new :: "call list" and r :: "error + 'b"
  assume "(\<exists>e. r = Inl e \<and> outcome s new (Inl e :: error + 'a)) \<or>
          (\<exists>(x::'a) n1 n2. new = n1 @ n2 \<and> outcome s n1 (Inr x :: error + 'a) \<and> outcome s n2 r)"
  then show "outcome s new r"
  proof (elim disjE exE conjE)
    fix e assume "r = Inl e" "outcome s new (Inl e :: error + 'a)"
    then show ?thesis by (simp add: outcome_def)
  next
    fix x :: 'a and n1 n2
    assume new: "new = n1 @ n2" and o1: "outcome s n1 (Inr x :: error + 'a)" and o2: "outcome s n2 r"
    from o1 have c1: "\<not> list_ex broke n1" by (simp add: outcome_def)
    show ?thesis
    proof (cases r)
      case (Inr y)
      with o2 c1 new show ?thesis by (simp add: outcome_def)
    next
      case (Inl e)
      with o2 have "(thrown s e \<and> \<not> list_ex broke n2) \<or>
         (n2 \<noteq> [] \<and> snd (last n2) = Inl e \<and> broke (last n2) \<and> \<not> list_ex broke (butlast n2))"
        by (simp add: outcome_def)
      with c1 new Inl show ?thesis
        by (auto simp: outcome_def butlast_append)
    qed
  qed
qed

lemma outcome_send:
  "\<not> catches_not_found c \<Longrightarrow> yields (send env c) (outcome s)"
  by (rule yields_weaken [OF yields_send])
     (simp add: outcome_def broke_def split: sum.splits)

lemma outcome_resolve: "yields (resolve x) (outcome s)"
  by (rule yields_weaken [OF yields_resolve]) (simp add: outcome_def)

lemma outcome_whenever:
  fixes m :: "('w, 'a) io"
  assumes "yields m (outcome s)"
  shows "yields (whenever b m) (outcome s)"
proof (rule yields_weaken [OF yields_whenever [OF assms]])
  fix new :: "call list" and r :: "error + unit"
  assume a: "if b then \<exists>r0. outcome s new (r0 :: error + 'a) \<and> r = map_sum id (\<lambda>_. ()) r0
             else new = [] \<and> r = Inr ()"
  show "outcome s new r"
  proof (cases b)
    case True
    with a obtain r0 :: "error + 'a" where "outcome s new r0" "r = map_sum id (\<lambda>_. ()) r0"
      by auto
    then show ?thesis by (cases r0) (simp_all add: outcome_def)
  next
    case False
    with a show ?thesis by (simp add: outcome_def)
  qed
qed

lemma outcome_one:
  assumes "catches_not_found c" and "new = [(c, r0)]"
    and "r = (case r0 of Inr x \<Rightarrow> Inr (g x)
              | Inl e \<Rightarrow> if e = ResourceNotFoundException then Inr v else Inl e)"
  shows "outcome s new r"
proof (cases r0)
  case (Inr x)
  with assms show ?thesis by (simp add: outcome_def broke_def)
next
  case (Inl e)
  with assms show ?thesis by (simp add: outcome_def broke_def)
qed

lemma outcome_caught:
  "catches_not_found c \<Longrightarrow>
   yields (try_catch (await (send env c) (\<lambda>x. resolve (g x)))
             (\<lambda>err. if err = ResourceNotFoundException then resolve v else reject err)) (outcome s)"
  by (rule yields_weaken [OF yields_caught]) (elim exE conjE, rule outcome_one)

lemma outcome_caught':
  "catches_not_found c \<Longrightarrow>
   yields (try_catch (await (send env c) (\<lambda>x. resolve (g x)))
             (\<lambda>err. if err \<noteq> ResourceNotFoundException then reject err else resolve v)) (outcome s)"
  by (rule yields_weaken [OF yields_caught']) (elim exE conjE, rule outcome_one)

lemma outcome_parseOrEmpty: "yields (parseOrEmpty p) (outcome s)"
  by (rule yields_weaken [OF yields_parseOrEmpty])
     (auto simp: outcome_def thrown_def split: if_splits)

lemma outcome_decodeSops: "yields (decodeSops env content inputType) (outcome s)"
proof (rule yields_weaken [OF yields_decodeSops])
  fix new :: "call list" and r :: "error + js_text"
  assume "\<exists>r0. new = [(ExecSops content inputType, r0)] \<and>
        r = (case r0 of Inl e \<Rightarrow> Inl e
             | Inr out \<Rightarrow> if stderr out \<noteq> [] then Inl (SopsCommandFailed (stderr out))
                          else Inr (stdout out))"
  then obtain r0 where new: "new = [(ExecSops content inputType, r0)]"
    and r: "r = (case r0 of Inl e \<Rightarrow> Inl e
             | Inr out \<Rightarrow> if stderr out \<noteq> [] then Inl (SopsCommandFailed (stderr out))
                          else Inr (stdout out))" by blast
  show "outcome s new r"
  proof (cases r0)
    case (Inl e)
    with new r show ?thesis by (simp add: outcome_def broke_def)
  next
    case (Inr out)
    with new r show ?thesis by (simp add: outcome_def broke_def thrown_def)
  qed
qed

lemma outcome_await3:
  fixes m :: "('w, 'a \<times> 'b \<times> 'c) io"
  assumes "yields m (outcome s)" and "\<And>a b c. yields (f a b c) (outcome s)"
  shows "yields (await m (\<lambda>(a, b, c). f a b c)) (outcome s)"
  by (rule outcome_await [OF assms(1)]) (simp add: assms(2) split: prod.splits)

lemma outcome_if:
  "yields m Q \<Longrightarrow> yields m' Q \<Longrightarrow> yields (if b then m else m') Q"
  by simp

lemma outcome_upsertSecret_tail:
  "yields (upsertSecret_tail env props decoded a b c) (outcome s)"
  unfolding upsertSecret_tail_def Let_def
  by (intro outcome_await outcome_if outcome_send outcome_resolve
        outcome_caught' outcome_parseOrEmpty outcome_whenever)
     simp_all

lemma outcome_streamToString: "yields (streamToString stream) (outcome (failure stream))"
  by (rule yieldsI)
     (auto simp: streamToString_def resolve_def reject_def outcome_def thrown_def
           split: option.splits)

lemma outcome_Cons:
  assumes "\<not> broke c" and "outcome s new r"
  shows "outcome s (c # new) r"
proof (cases r)
  case (Inr x)
  with assms show ?thesis by (simp add: outcome_def)
next
  case (Inl e)
  with assms show ?thesis by (cases "new = []") (auto simp: outcome_def)
qed

lemma outcome_upsertSecret:
  "yields (upsertSecret env props) (\<lambda>new r. outcome (stream_failure new) new r)"
  unfolding upsertSecret_def
proof (rule yields_weaken [OF yields_await [OF yields_send,
        where R = "\<lambda>response. outcome (failure (Body response))"]])
  fix response
  show "yields
     (await (streamToString (Body response)) (\<lambda>secretBody.
      await (decodeSops env secretBody (SecretType props)) (\<lambda>decodedSecret.
      await (try_catch
               (await (send env (DescribeSecretCommand (SecretName props))) (\<lambda>response.
                  resolve (True, Tags response, ReplicationStatus response)))
               (\<lambda>err. if err = ResourceNotFoundException then resolve (False, None, None)
                       else reject err))
        (\<lambda>(secretExists, existingTags, existingReplicaRegions).
           upsertSecret_tail env props decodedSecret secretExists existingTags
             existingReplicaRegions))))
     (outcome (failure (Body response)))"
    by (intro outcome_await3 outcome_await outcome_streamToString outcome_decodeSops
          outcome_caught outcome_upsertSecret_tail)
       simp_all
next
  let ?G = "GetObjectCommand (S3BucketName props) (S3ObjectKey props)"
  fix new :: "call list" and r :: "error + unit"
  assume "(\<exists>e. r = Inl e \<and> new = [(?G, Inl e)]) \<or>
          (\<exists>x n1 n2. new = n1 @ n2 \<and> n1 = [(?G, Inr x)] \<and> outcome (failure (Body x)) n2 r)"
  then show "outcome (stream_failure new) new r"
  proof (elim disjE exE conjE)
    fix e assume "r = Inl e" "new = [(?G, Inl e)]"
    then show ?thesis by (simp add: outcome_def broke_def)
  next
    fix x n1 n2
    assume new: "new = n1 @ n2" "n1 = [(?G, Inr x)]" and o: "outcome (failure (Body x)) n2 r"
    have "\<not> broke (?G, Inr x)" by (simp add: broke_def)
    from outcome_Cons [OF this o] new show ?thesis by (simp add: stream_failure_def)
  qed
qed

subsection \<open>When an upsert proceeds\<close>

lemma proceeds_await:
  fixes m :: "('w, 'a) io" and f :: "'a \<Rightarrow> ('w, 'b) io"
  assumes "yields m (proceeds M)" and "\<And>x. yields (f x) (proceeds M)"
  shows "yields (await m f) (proceeds M)"
proof (rule yields_weaken [OF yields_await [OF assms]])
  fix new :: "call list" and r :: "error + 'b"
  assume "(\<exists>e. r = Inl e \<and> proceeds M new (Inl e :: error + 'a)) \<or>
          (\<exists>(x::'a) n1 n2. new = n1 @ n2 \<and> proceeds M n1 (Inr x :: error + 'a) \<and> proceeds M n2 r)"
  then show "proceeds M new r"
    by (auto simp: proceeds_def)
qed

lemma proceeds_send:
  "\<not> catches_not_found c \<Longrightarrow> yields (send env c) (proceeds M)"
  by (rule yields_weaken [OF yields_send])
     (auto simp: proceeds_def broke_def split: sum.splits)

lemma proceeds_resolve: "yields (resolve x) (proceeds M)"
  by (rule yields_weaken [OF yields_resolve]) (simp add: proceeds_def)

lemma proceeds_whenever:
  fixes m :: "('w, 'a) io"
  assumes "yields m (proceeds M)"
  shows "yields (whenever b m) (proceeds M)"
proof (rule yields_weaken [OF yields_whenever [OF assms]])
  fix new :: "call list" and r :: "error + unit"
  assume a: "if b then \<exists>r0. proceeds M new (r0 :: error + 'a) \<and> r = map_sum id (\<lambda>_. ()) r0
             else new = [] \<and> r = Inr ()"
  show "proceeds M new r"
  proof (cases b)
    case True
    with a obtain r0 :: "error + 'a" where "proceeds M new r0" "r = map_sum id (\<lambda>_. ()) r0"
      by auto
    then show ?thesis by (cases r0) (simp_all add: proceeds_def)
  next
    case False
    with a show ?thesis by (simp add: proceeds_def)
  qed
qed

lemma proceeds_one:
  assumes "new = [(c, r0)]"
    and "r = (case r0 of Inr x \<Rightarrow> Inr (g x)
              | Inl e \<Rightarrow> if e = ResourceNotFoundException then Inr v else Inl e)"
  shows "proceeds M new r"
proof (cases r0)
  case (Inr x)
  with assms show ?thesis by (simp add: proceeds_def)
next
  case (Inl e)
  with assms show ?thesis by (simp add: proceeds_def broke_def)
qed

lemma proceeds_caught':
  "yields (try_catch (await (send env c) (\<lambda>x. resolve (g x)))
             (\<lambda>err. if err \<noteq> ResourceNotFoundException then reject err else resolve v))
     (proceeds M)"
  by (rule yields_weaken [OF yields_caught']) (elim exE conjE, rule proceeds_one)

lemma proceeds_parseOrEmpty:
  "(p = Some Malformed \<Longrightarrow> M) \<Longrightarrow> yields (parseOrEmpty p) (proceeds M)"
  by (rule yields_weaken [OF yields_parseOrEmpty]) (auto simp: proceeds_def split: if_splits)

lemma proceeds_upsertSecret_tail:
  "yields (upsertSecret_tail env props decoded a b c) (proceeds (malformed props))"
  unfolding upsertSecret_tail_def Let_def
  by (intro proceeds_await outcome_if proceeds_send proceeds_resolve
        proceeds_caught' proceeds_parseOrEmpty proceeds_whenever)
     (simp_all add: malformed_def)

subsection \<open>The calls of an upsert\<close>

lemma follows_await:
  fixes m :: "('w, 'a) io" and f :: "'a \<Rightarrow> ('w, 'b) io"
  assumes "yields m (follows p1)" and "\<And>x. yields (f x) (follows p2)"
  shows "yields (await m f) (follows (p1 @ p2))"
proof (rule yields_weaken [OF yields_await [OF assms]])
  fix new :: "call list" and r :: "error + 'b"
  assume "(\<exists>e. r = Inl e \<and> follows p1 new (Inl e :: error + 'a)) \<or>
          (\<exists>(x::'a) n1 n2. new = n1 @ n2 \<and> follows p1 n1 (Inr x :: error + 'a) \<and> follows p2 n2 r)"
  then show "follows (p1 @ p2) new r"
  proof (elim disjE exE conjE)
    fix e assume "r = Inl e" "follows p1 new (Inl e :: error + 'a)"
    then show ?thesis by (simp add: follows_def)
  next
    fix x :: 'a and n1 n2
    assume "new = n1 @ n2" "follows p1 n1 (Inr x :: error + 'a)" "follows p2 n2 r"
    then show ?thesis by (cases r) (simp_all add: follows_def)
  qed
qed

lemma parseOrEmpty_run:
  "parseOrEmpty p s = (if p = Some Malformed then (Inl SyntaxError, s) else (Inr (parsed p), s))"
  by (simp add: parseOrEmpty_def parsed_def resolve_def reject_def
        split: option.splits json_text.splits)

lemma follows_parse:
  fixes f :: "'a list \<Rightarrow> ('w, 'b) io"
  assumes "yields (f (parsed p)) (follows plan)"
  shows "yields (await (parseOrEmpty p) f) (follows plan)"
proof (rule yieldsI)
  fix w tr r w' tr'
  assume run: "await (parseOrEmpty p) f (w, tr) = (r, (w', tr'))"
  show "\<exists>new. tr' = tr @ new \<and> follows plan new r"
  proof (cases "p = Some Malformed")
    case True
    with run have "r = Inl SyntaxError" "tr' = tr"
      by (simp_all add: await_def parseOrEmpty_run)
    then show ?thesis by (simp add: follows_def)
  next
    case False
    with run have "f (parsed p) (w, tr) = (r, (w', tr'))"
      by (simp add: await_def parseOrEmpty_run)
    from yieldsD [OF assms this] show ?thesis .
  qed
qed

lemma follows_send: "yields (send env c) (follows [c])"
  by (rule yields_weaken [OF yields_send]) (simp add: follows_def split: sum.splits)

lemma follows_resolve: "yields (resolve x) (follows [])"
  by (rule yields_weaken [OF yields_resolve]) (simp add: follows_def)

lemma follows_whenever:
  fixes m :: "('w, 'a) io"
  assumes "yields m (follows p)"
  shows "yields (whenever b m) (follows (if b then p else []))"
proof (rule yields_weaken [OF yields_whenever [OF assms]])
  fix new :: "call list" and r :: "error + unit"
  assume a: "if b then \<exists>r0. follows p new (r0 :: error + 'a) \<and> r = map_sum id (\<lambda>_. ()) r0
             else new = [] \<and> r = Inr ()"
  show "follows (if b then p else []) new r"
  proof (cases b)
    case True
    with a obtain r0 :: "error + 'a" where "follows p new r0" "r = map_sum id (\<lambda>_. ()) r0"
      by auto
    with True show ?thesis by (cases r0) (simp_all add: follows_def)
  next
    case False
    with a show ?thesis by (simp add: follows_def)
  qed
qed

lemma follows_if:
  "yields m (follows [c]) \<Longrightarrow> yields m' (follows [c']) \<Longrightarrow>
   yields (if b then m else m') (follows [if b then c else c'])"
  by simp

lemma follows_send_unit: "yields (await (send env c) (\<lambda>_. resolve ())) (follows [c])"
  using follows_await [OF follows_send follows_resolve] by simp

lemma follows_exact: "map fst new = p \<Longrightarrow> follows p new r"
  by (simp add: follows_def split: sum.split)

lemma follows_caught':
  "yields (try_catch (await (send env c) (\<lambda>x. resolve (g x)))
             (\<lambda>err. if err \<noteq> ResourceNotFoundException then reject err else resolve v))
     (follows [c])"
  by (rule yields_weaken [OF yields_caught']) (elim exE conjE, rule follows_exact, simp)

lemma follows_eq: "yields m (follows p) \<Longrightarrow> p = p' \<Longrightarrow> yields m (follows p')"
  by simp

lemma follows_upsertSecret_tail:
  "yields (upsertSecret_tail env props decoded a b c) (follows (upsert_calls props decoded a b c))"
  unfolding upsertSecret_tail_def Let_def
  apply (rule follows_eq)
   apply (rule follows_parse follows_await follows_if follows_send_unit follows_caught'
      follows_whenever follows_send)+
  apply (simp add: upsert_calls_def write_call_def tag_calls_def policy_call_def region_calls_def)
  done

lemma writes_first_upsertSecret_tail:
  "yields (upsertSecret_tail env props decoded a b c)
     (\<lambda>new r. \<exists>r0 rest. new = (write_call props decoded a, r0) # rest)"
  unfolding upsertSecret_tail_def Let_def
  apply (rule yields_weaken)
   apply (rule yields_await [where Q = "\<lambda>new r. new = [(write_call props decoded a, r)]"])
    apply (simp add: write_call_def yields_send)
   apply (rule follows_parse follows_await follows_if follows_send_unit follows_caught'
      follows_whenever follows_send)+
  apply auto
  done

lemma yields_conj:
  assumes "yields m P" and "yields m Q"
  shows "yields m (\<lambda>new r. P new r \<and> Q new r)"
proof (rule yieldsI)
  fix w tr r w' tr'
  assume run: "m (w, tr) = (r, (w', tr'))"
  from yieldsD [OF assms(1) run] obtain n1 where n1: "tr' = tr @ n1" "P n1 r" by blast
  from yieldsD [OF assms(2) run] obtain n2 where n2: "tr' = tr @ n2" "Q n2 r" by blast
  from n1(1) n2(1) have "n1 = n2" by simp
  with n1 n2 show "\<exists>new. tr' = tr @ new \<and> P new r \<and> Q new r" by blast
qed

lemma upsertSecret_tail_run:
  "yields (upsertSecret_tail env props decoded a b c)
     (\<lambda>new r. follows (upsert_calls props decoded a b c) new r \<and>
               proceeds (malformed props) new r \<and>
               (\<exists>r0 rest. new = (write_call props decoded a, r0) # rest))"
  by (intro yields_conj follows_upsertSecret_tail proceeds_upsertSecret_tail
        writes_first_upsertSecret_tail)

lemma decodeSops_run:
  "env (ExecSops content ty) w = (x, w1) \<Longrightarrow>
   decodeSops env content ty (w, tr) =
     ((case x of Inl e \<Rightarrow> Inl e
       | Inr out \<Rightarrow> if stderr out \<noteq> [] then Inl (SopsCommandFailed (stderr out))
                    else Inr (stdout out)),
      (w1, tr @ [(ExecSops content ty, x)]))"
  by (simp add: decodeSops_def await_def send_def resolve_def reject_def split: sum.splits)

lemma describe_run:
  "env (DescribeSecretCommand n) w = (d, w1) \<Longrightarrow>
   try_catch (await (send env (DescribeSecretCommand n)) (\<lambda>response.
                resolve (True, Tags response, ReplicationStatus response)))
     (\<lambda>err. if err = ResourceNotFoundException then resolve (False, None, None) else reject err)
     (w, tr) =
     ((case d of Inl e \<Rightarrow> if e = ResourceNotFoundException then Inr (False, None, None) else Inl e
       | Inr response \<Rightarrow> Inr (True, Tags response, ReplicationStatus response)),
      (w1, tr @ [(DescribeSecretCommand n, d)]))"
  by (simp add: try_catch_def await_def send_def resolve_def reject_def split: sum.splits)

lemma streamToString_run:
  "streamToString stream s =
     (case failure stream of
        Some e \<Rightarrow> (Inl e, s)
      | None \<Rightarrow> (Inr (utf8 stream), s))"
  by (simp add: streamToString_def resolve_def reject_def split: option.splits)

lemma upsertSecret_shape:
  assumes run: "upsertSecret env props (w, tr0) = (res, (w', tr))"
  shows "\<exists>new. tr = tr0 @ new \<and> shape props new res"
proof -
  let ?G = "GetObjectCommand (S3BucketName props) (S3ObjectKey props)"
  let ?D = "DescribeSecretCommand (SecretName props)"
  obtain g w1 where g: "env ?G w = (g, w1)" by (metis prod.exhaust)
  have sg: "send env ?G (w, tr0) = (g, (w1, tr0 @ [(?G, g)]))"
    using g by (simp add: send_def)
  show ?thesis
  proof (cases g)
    case (Inl e)
    with run sg have "res = Inl e" "tr = tr0 @ [(?G, Inl e)]"
      by (simp_all add: upsertSecret_def await_def)
    then show ?thesis by (simp add: shape_def)
  next
    case g_ok: (Inr obj)
    show ?thesis
    proof (cases "failure (Body obj)")
      case (Some e)
      with run sg g_ok have "res = Inl e" "tr = tr0 @ [(?G, Inr obj)]"
        by (simp_all add: upsertSecret_def await_def streamToString_run)
      with Some show ?thesis by (simp add: shape_def)
    next
      case ended: None
      let ?X = "ExecSops (utf8 (Body obj)) (SecretType props)"
      obtain x w2 where x: "env ?X w1 = (x, w2)" by (metis prod.exhaust)
      have dx: "decodeSops env (utf8 (Body obj)) (SecretType props)
                  (w1, tr0 @ [(?G, Inr obj)]) =
          ((case x of Inl e \<Rightarrow> Inl e
            | Inr out \<Rightarrow> if stderr out \<noteq> [] then Inl (SopsCommandFailed (stderr out))
                         else Inr (stdout out)),
           (w2, (tr0 @ [(?G, Inr obj)]) @ [(?X, x)]))"
        using x by (simp add: decodeSops_run)
      show ?thesis
      proof (cases x)
        case (Inl e)
        with run sg g_ok ended dx have "res = Inl e" "tr = tr0 @ [(?G, Inr obj), (?X, Inl e)]"
          by (simp_all add: upsertSecret_def await_def streamToString_run)
        with ended show ?thesis by (simp add: shape_def)
      next
        case x_ok: (Inr out)
        show ?thesis
        proof (cases "stderr out = []")
          case False
          with run sg g_ok ended dx x_ok have "res = Inl (SopsCommandFailed (stderr out))"
            "tr = tr0 @ [(?G, Inr obj), (?X, Inr out)]"
            by (simp_all add: upsertSecret_def await_def streamToString_run)
          with False ended show ?thesis by (simp add: shape_def)
        next
          case quiet: True
          let ?tr2 = "tr0 @ [(?G, Inr obj), (?X, Inr out)]"
          obtain d w3 where d: "env ?D w2 = (d, w3)" by (metis prod.exhaust)
          have dd: "try_catch (await (send env ?D) (\<lambda>response.
                  resolve (True, Tags response, ReplicationStatus response)))
              (\<lambda>err. if err = ResourceNotFoundException then resolve (False, None, None)
                      else reject err) (w2, ?tr2) =
              ((case d of
                  Inl e \<Rightarrow> if e = ResourceNotFoundException then Inr (False, None, None)
                           else Inl e
                | Inr response \<Rightarrow> Inr (True, Tags response, ReplicationStatus response)),
               (w3, ?tr2 @ [(?D, d)]))"
            using d by (simp add: describe_run)
          show ?thesis
          proof (cases d)
            case d_ok: (Inr resp)
            with run sg g_ok ended dx x_ok quiet dd
            have "upsertSecret_tail env props (stdout out) True (Tags resp)
                    (ReplicationStatus resp) (w3, ?tr2 @ [(?D, Inr resp)]) = (res, (w', tr))"
              by (simp add: upsertSecret_def await_def streamToString_run)
            from yieldsD [OF upsertSecret_tail_run this] obtain rest where
              "tr = (?tr2 @ [(?D, Inr resp)]) @ rest"
              "follows (upsert_calls props (stdout out) True (Tags resp) (ReplicationStatus resp))
                 rest res"
              "proceeds (malformed props) rest res"
              "\<exists>r0 rest'. rest = (write_call props (stdout out) True, r0) # rest'" by blast
            with quiet ended show ?thesis by (simp add: shape_def)
          next
            case d_err: (Inl e)
            show ?thesis
            proof (cases "e = ResourceNotFoundException")
              case True
              with run sg g_ok ended dx x_ok quiet dd d_err
              have "upsertSecret_tail env props (stdout out) False None None
                      (w3, ?tr2 @ [(?D, Inl ResourceNotFoundException)]) = (res, (w', tr))"
                by (simp add: upsertSecret_def await_def streamToString_run)
              from yieldsD [OF upsertSecret_tail_run this] obtain rest where
                "tr = (?tr2 @ [(?D, Inl ResourceNotFoundException)]) @ rest"
                "follows (upsert_calls props (stdout out) False None None) rest res"
                "proceeds (malformed props) rest res"
                "\<exists>r0 rest'. rest = (write_call props (stdout out) False, r0) # rest'" by blast
              with quiet ended show ?thesis by (simp add: shape_def)
            next
              case False
              with run sg g_ok ended dx x_ok quiet dd d_err
              have "res = Inl e" "tr = ?tr2 @ [(?D, Inl e)]"
                by (simp_all add: upsertSecret_def await_def streamToString_run)
              with quiet ended False show ?thesis by (simp add: shape_def)
            qed
          qed
        qed
      qed
    qed
  qed
qed

section \<open>The handlers of the events\<close>

text \<open>
  C10. An event whose \<^verbatim>\<open>RequestType\<close> is none of Create, Update and Delete is rejected
  with \<^verbatim>\<open>Error('Failed')\<close> in place of the "Unknown event type" error, and no call is
  made: the world and the trace are unchanged. For the three known types \<open>onEvent\<close> is the
  handler itself, so what the handler rejects with reaches the caller as it is.
\<close>

theorem onEvent_dispatch:
  "(RequestType event \<notin> {''Create'', ''Update'', ''Delete''} \<longrightarrow>
      onEvent env event (w, tr) = (Inl (Error ''Failed''), (w, tr))) \<and>
   (RequestType event = ''Create'' \<longrightarrow> onEvent env event = handleCreate env event) \<and>
   (RequestType event = ''Update'' \<longrightarrow> onEvent env event = handleUpdate env event) \<and>
   (RequestType event = ''Delete'' \<longrightarrow> onEvent env event = handleDelete env event)"
  by (simp add: onEvent_def reject_def)

lemma handleDelete_not_found:
  assumes "env (DescribeSecretCommand (PhysicalResourceId event)) w =
             (Inl ResourceNotFoundException, w1)"
  shows "handleDelete env event (w, tr) =
           (Inr \<lparr>ResponsePhysicalResourceId = PhysicalResourceId event\<rparr>,
            (w1, tr @ [(DescribeSecretCommand (PhysicalResourceId event),
                        Inl ResourceNotFoundException)]))"
  using assms
  by (simp add: handleDelete_def await_def try_catch_def send_def resolve_def reject_def)

lemma handleDelete_store:
  "handleDelete store_env event (w, tr) =
     (case secrets w (PhysicalResourceId event) of
        None \<Rightarrow>
          (Inr \<lparr>ResponsePhysicalResourceId = PhysicalResourceId event\<rparr>,
           (w, tr @ [(DescribeSecretCommand (PhysicalResourceId event),
                      Inl ResourceNotFoundException)]))
      | Some s \<Rightarrow>
          (Inr \<lparr>ResponsePhysicalResourceId = PhysicalResourceId event\<rparr>,
           (w\<lparr>secrets := (secrets w)(PhysicalResourceId event := None)\<rparr>,
            tr @ (DescribeSecretCommand (PhysicalResourceId event),
                  Inr (blank\<lparr>Tags := Some (secret_tags s),
                              ReplicationStatus := Some (replicas s)\<rparr>)) #
                 (if replicas s \<noteq> []
                  then [(RemoveRegionsFromReplicationCommand (PhysicalResourceId event)
                           (map Region (replicas s)), Inr blank)]
                  else []) @
                 [(DeleteSecretCommand (PhysicalResourceId event) True, Inr blank)])))"
  by (simp add: handleDelete_def await_def try_catch_def send_def resolve_def reject_def
        whenever_def hasLength_def on_secret_def split: option.splits)

text \<open>
  C4. Delete is idempotent. In any environment, when the describe call by name answers
  "not found", \<open>handleDelete\<close> resolves with the same identity and its only call is that
  describe call. Hence, on the secret store, two deletes in succession both resolve with
  the identity: whatever the first one found, the second finds nothing, makes the
  describe call alone and leaves the store as it is.
\<close>

theorem handleDelete_idempotent:
  "(env (DescribeSecretCommand (PhysicalResourceId event)) w =
      (Inl ResourceNotFoundException, w1) \<longrightarrow>
    handleDelete env event (w, tr) =
      (Inr \<lparr>ResponsePhysicalResourceId = PhysicalResourceId event\<rparr>,
       (w1, tr @ [(DescribeSecretCommand (PhysicalResourceId event),
                   Inl ResourceNotFoundException)]))) \<and>
   (handleDelete store_env event (v, []) = (r1, (v1, tr1)) \<and>
    handleDelete store_env event (v1, []) = (r2, (v2, tr2)) \<longrightarrow>
    r1 = Inr \<lparr>ResponsePhysicalResourceId = PhysicalResourceId event\<rparr> \<and>
    r2 = Inr \<lparr>ResponsePhysicalResourceId = PhysicalResourceId event\<rparr> \<and>
    tr2 = [(DescribeSecretCommand (PhysicalResourceId event), Inl ResourceNotFoundException)] \<and>
    v2 = v1)"
proof (intro conjI impI)
  assume "env (DescribeSecretCommand (PhysicalResourceId event)) w =
            (Inl ResourceNotFoundException, w1)"
  then show "handleDelete env event (w, tr) =
      (Inr \<lparr>ResponsePhysicalResourceId = PhysicalResourceId event\<rparr>,
       (w1, tr @ [(DescribeSecretCommand (PhysicalResourceId event),
                   Inl ResourceNotFoundException)]))"
    by (rule handleDelete_not_found)
next
  assume runs: "handleDelete store_env event (v, []) = (r1, (v1, tr1)) \<and>
    handleDelete store_env event (v1, []) = (r2, (v2, tr2))"
  then have gone: "secrets v1 (PhysicalResourceId event) = None" and r1: "r1 = Inr \<lparr>ResponsePhysicalResourceId = PhysicalResourceId event\<rparr>"
    by (auto simp: handleDelete_store split: option.splits)
  show "r1 = Inr \<lparr>ResponsePhysicalResourceId = PhysicalResourceId event\<rparr>" by (rule r1)
  from runs gone show "r2 = Inr \<lparr>ResponsePhysicalResourceId = PhysicalResourceId event\<rparr>"
    "tr2 = [(DescribeSecretCommand (PhysicalResourceId event), Inl ResourceNotFoundException)]"
    "v2 = v1"
    by (simp_all add: handleDelete_store)
qed

text \<open>
  C5. A delete of an existing secret with one or more replica regions makes, after the
  describe call, one remove-regions call with all the regions of the describe response;
  the delete call comes after it, only when it resolved, and asks for deletion without
  recovery (\<^verbatim>\<open>ForceDeleteWithoutRecovery: true\<close>). There is no other call.
\<close>

theorem handleDelete_regions_first:
  assumes "env (DescribeSecretCommand (PhysicalResourceId event)) w = (Inr resp, w1)"
    and "ReplicationStatus resp = Some rs" and "rs \<noteq> []"
    and "env (RemoveRegionsFromReplicationCommand (PhysicalResourceId event) (map Region rs)) w1
           = (removed, w2)"
    and "handleDelete env event (w, []) = (res, (w', tr))"
  shows "map fst tr =
           (if isl removed
            then [DescribeSecretCommand (PhysicalResourceId event),
                  RemoveRegionsFromReplicationCommand (PhysicalResourceId event) (map Region rs)]
            else [DescribeSecretCommand (PhysicalResourceId event),
                  RemoveRegionsFromReplicationCommand (PhysicalResourceId event) (map Region rs),
                  DeleteSecretCommand (PhysicalResourceId event) True])"
  using assms
  by (cases removed)
     (auto simp: handleDelete_def await_def try_catch_def send_def resolve_def reject_def
        whenever_def hasLength_def split: prod.splits sum.splits)

section \<open>The upsert\<close>

lemma upsertSecret_outcome:
  assumes "upsertSecret env props (w, []) = (res, (w', tr))"
  shows "outcome (stream_failure tr) tr res"
  using yieldsD [OF outcome_upsertSecret assms] by simp

lemma upsertSecret_shape0:
  assumes "upsertSecret env props (w, []) = (res, (w', tr))"
  shows "shape props tr res"
  using upsertSecret_shape [OF assms] by simp

lemma outcome_broke_last:
  assumes "outcome s tr res" and "x \<in> set tr" and "broke x"
  shows "tr \<noteq> [] \<and> last tr = x \<and> Inl (projl (snd x)) = res"
proof -
  from assms(2,3) have ex: "list_ex broke tr" by (auto simp: list_ex_iff)
  from assms(2) have ne: "tr \<noteq> []" by auto
  from assms(1) ex obtain e where res: "res = Inl e"
    and l: "snd (last tr) = Inl e" "broke (last tr)" "\<not> list_ex broke (butlast tr)"
    by (cases res) (auto simp: outcome_def)
  from l(3) assms(3) have "x \<notin> set (butlast tr)" by (auto simp: list_ex_iff)
  moreover from ne have "set tr = insert (last tr) (set (butlast tr))"
    by (metis append_butlast_last_id list.simps(15) rotate1.simps(2) set_rotate1)
  ultimately have "x = last tr" using assms(2) by auto
  with ne res l show ?thesis by simp
qed

text \<open>
  C3, amended. In an upsert, a "not found" answer to any call other than the existence
  check and the clearing of the resource policy (so to every tag call, to the setting of
  the policy and to every replica-region call) is what the upsert rejects with, and that
  call is the last one made. The two exceptions are the calls the handler wraps in a
  \<^verbatim>\<open>try\<close> block.
\<close>

theorem upsertSecret_not_found_aborts:
  assumes "upsertSecret env props (w, []) = (res, (w', tr))"
    and "(c, Inl ResourceNotFoundException) \<in> set tr"
    and "\<not> catches_not_found c"
  shows "res = Inl ResourceNotFoundException \<and> last tr = (c, Inl ResourceNotFoundException)"
proof -
  from assms(3) have "broke (c, Inl ResourceNotFoundException)" by (simp add: broke_def)
  from outcome_broke_last [OF upsertSecret_outcome [OF assms(1)] assms(2) this]
  show ?thesis by auto
qed

lemma follows_filter:
  assumes "follows plan rest res"
  shows "prefix (filter P (map fst rest)) (filter P plan) \<and>
         (\<not> isl res \<longrightarrow> filter P (map fst rest) = filter P plan)"
  using assms by (cases res) (simp_all add: follows_def filter_mono_prefix)

lemma follows_subset:
  assumes "follows plan rest res"
  shows "set (map fst rest) \<subseteq> set plan"
proof (cases res)
  case (Inl e)
  with assms have "prefix (map fst rest) plan" by (simp add: follows_def)
  then show ?thesis by (rule set_mono_prefix)
next
  case (Inr u)
  with assms show ?thesis by (simp add: follows_def)
qed

lemma region_calls_of_plan:
  "filter is_region_call (upsert_calls props decoded a b c) = region_calls props a c"
  by (simp add: upsert_calls_def write_call_def tag_calls_def policy_call_def region_calls_def)


lemma trim_decomposes:
  "\<exists>pre post. s = pre @ trim s @ post \<and> list_all isWhiteSpace pre \<and> list_all isWhiteSpace post"
proof -
  let ?t = "dropWhile isWhiteSpace s"
  have "s = takeWhile isWhiteSpace s @ ?t" by simp
  moreover have "rev ?t = takeWhile isWhiteSpace (rev ?t) @ dropWhile isWhiteSpace (rev ?t)"
    by simp
  then have "?t = trim s @ rev (takeWhile isWhiteSpace (rev ?t))"
    unfolding trim_def by (metis rev_append rev_rev_ident)
  moreover have "list_all isWhiteSpace (takeWhile isWhiteSpace s)"
    by (simp add: list_all_iff) (metis set_takeWhileD)
  moreover have "list_all isWhiteSpace (rev (takeWhile isWhiteSpace (rev ?t)))"
    by (simp add: list_all_iff) (metis set_takeWhileD)
  ultimately show ?thesis by metis
qed

lemma trim_ends:
  assumes "trim s \<noteq> []"
  shows "\<not> isWhiteSpace (hd (trim s)) \<and> \<not> isWhiteSpace (last (trim s))"
proof -
  let ?t = "dropWhile isWhiteSpace s"
  let ?u = "dropWhile isWhiteSpace (rev ?t)"
  from assms have u: "?u \<noteq> []" by (simp add: trim_def)
  have t: "?t \<noteq> []"
  proof
    assume a: "?t = []"
    have "?u = []" unfolding a by simp
    with u show False by simp
  qed
  from u have "\<not> isWhiteSpace (hd ?u)" by (rule hd_dropWhile)
  with u have l: "\<not> isWhiteSpace (last (trim s))" by (simp add: trim_def last_rev)
  from t have ht: "\<not> isWhiteSpace (hd ?t)" by (rule hd_dropWhile)
  with t have "\<not> isWhiteSpace (last (rev ?t))" by (simp add: last_rev)
  have "rev ?t = takeWhile isWhiteSpace (rev ?t) @ ?u" by simp
  then have "?t = rev ?u @ rev (takeWhile isWhiteSpace (rev ?t))"
    by (metis rev_append rev_rev_ident)
  with u have "hd ?t = hd (rev ?u)" by (metis hd_append2 rev_is_Nil_conv)
  with ht have "\<not> isWhiteSpace (hd (trim s))" by (simp add: trim_def)
  with l show ?thesis by simp
qed

lemma plan_writes:
  "UpdateSecretCommand n d v k \<in> set (upsert_calls props decoded a b c) \<Longrightarrow> v = trim decoded"
  "CreateSecretCommand n d v k \<in> set (upsert_calls props decoded a b c) \<Longrightarrow> v = trim decoded"
  by (auto simp: upsert_calls_def write_call_def tag_calls_def policy_call_def region_calls_def
      split: if_splits)

lemma plan_no_exec:
  "ExecSops content ty \<notin> set (upsert_calls props decoded a b c)"
  by (auto simp: upsert_calls_def write_call_def tag_calls_def policy_call_def region_calls_def
      split: if_splits)

lemma shape_cases:
  assumes "shape props tr res"
  obtains
    (fetch) e where
      "tr = [(GetObjectCommand (S3BucketName props) (S3ObjectKey props), Inl e)]" "res = Inl e"
  | (stream) obj e where
      "tr = [(GetObjectCommand (S3BucketName props) (S3ObjectKey props), Inr obj)]"
      "failure (Body obj) = Some e" "res = Inl e"
  | (exec) obj e where
      "tr = [(GetObjectCommand (S3BucketName props) (S3ObjectKey props), Inr obj),
             (ExecSops (utf8 (Body obj)) (SecretType props), Inl e)]"
      "failure (Body obj) = None" "res = Inl e"
  | (noisy) obj out where
      "tr = [(GetObjectCommand (S3BucketName props) (S3ObjectKey props), Inr obj),
             (ExecSops (utf8 (Body obj)) (SecretType props), Inr out)]"
      "failure (Body obj) = None"
      "stderr out \<noteq> []" "res = Inl (SopsCommandFailed (stderr out))"
  | (describe) obj out e where
      "tr = [(GetObjectCommand (S3BucketName props) (S3ObjectKey props), Inr obj),
             (ExecSops (utf8 (Body obj)) (SecretType props), Inr out),
             (DescribeSecretCommand (SecretName props), Inl e)]"
      "failure (Body obj) = None"
      "stderr out = []" "e \<noteq> ResourceNotFoundException" "res = Inl e"
  | (create) obj out rest where
      "tr = (GetObjectCommand (S3BucketName props) (S3ObjectKey props), Inr obj) #
            (ExecSops (utf8 (Body obj)) (SecretType props), Inr out) #
            (DescribeSecretCommand (SecretName props), Inl ResourceNotFoundException) # rest"
      "failure (Body obj) = None \<and> stderr out = []"
      "follows (upsert_calls props (stdout out) False None None) rest res"
      "proceeds (malformed props) rest res"
      "\<exists>r0 rest'. rest = (write_call props (stdout out) False, r0) # rest'"
  | (update) obj out resp rest where
      "tr = (GetObjectCommand (S3BucketName props) (S3ObjectKey props), Inr obj) #
            (ExecSops (utf8 (Body obj)) (SecretType props), Inr out) #
            (DescribeSecretCommand (SecretName props), Inr resp) # rest"
      "failure (Body obj) = None \<and> stderr out = []"
      "follows (upsert_calls props (stdout out) True (Tags resp) (ReplicationStatus resp)) rest res"
      "proceeds (malformed props) rest res"
      "\<exists>r0 rest'. rest = (write_call props (stdout out) True, r0) # rest'"
proof -
  from assms [unfolded shape_def] show thesis
  proof (elim disjE exE conjE, goal_cases)
    case 1
    then show ?case by (rule fetch)
  next
    case 2
    then show ?case by (rule stream)
  next
    case 3
    then show ?case by (rule exec)
  next
    case 4
    then show ?case by (rule noisy)
  next
    case 5
    then show ?case by (rule describe)
  next
    case 6
    show ?case by (rule create) (use 6 in blast)+
  next
    case 7
    show ?case by (rule update) (use 7 in blast)+
  qed
qed

lemma upsertSecret_resolves:
  assumes run: "upsertSecret env props (w, []) = (res, (w', tr))"
    and clean: "\<not> list_ex broke tr" and quiet: "\<not> list_ex noisy tr"
    and ended: "stream_failure tr = None" and wellformed: "\<not> malformed props"
  shows "res = Inr ()"
  using upsertSecret_shape0 [OF run]
proof (cases rule: shape_cases)
  case (fetch e)
  with clean show ?thesis by (simp add: broke_def)
next
  case (stream obj e)
  with ended show ?thesis by (simp add: stream_failure_def)
next
  case (exec obj e)
  with clean show ?thesis by (simp add: broke_def)
next
  case (noisy obj out)
  with quiet show ?thesis by simp
next
  case (describe obj out e)
  with clean show ?thesis by (simp add: broke_def)
next
  case (create obj out rest)
  from clean create(1) have "\<not> list_ex broke rest" by simp
  with create(4) wellformed have "\<not> isl res" by (simp add: proceeds_def)
  then show ?thesis by (cases res) simp_all
next
  case (update obj out resp rest)
  from clean update(1) have "\<not> list_ex broke rest" by simp
  with update(4) wellformed have "\<not> isl res" by (simp add: proceeds_def)
  then show ?thesis by (cases res) simp_all
qed

lemma upsertSecret_stops_at_broken:
  assumes run: "upsertSecret env props (w, []) = (res, (w', tr))"
  shows "\<not> list_ex broke (butlast tr)"
proof (cases res)
  case (Inr u)
  with upsertSecret_outcome [OF run] have "\<not> list_ex broke tr" by (simp add: outcome_def)
  then show ?thesis by (auto simp: list_ex_iff dest: in_set_butlastD)
next
  case (Inl e)
  with upsertSecret_outcome [OF run]
  have "\<not> list_ex broke tr \<or> \<not> list_ex broke (butlast tr)" by (auto simp: outcome_def)
  then show ?thesis by (auto simp: list_ex_iff dest: in_set_butlastD)
qed

text \<open>
  C6. In an upsert, with \<open>existing\<close> the replica regions of the describe response and
  \<open>desired\<close> the parsed \<^verbatim>\<open>SecretReplicaRegions\<close>: the regions to remove are the
  existing region names that are no desired region name (key references play no part); the
  replica-region calls of the trace are, in this order, one removal of exactly these regions
  (none when there are none) and one addition of all desired regions, present remotely or
  not (none when none is desired). An upsert that rejects has made a prefix of these calls,
  and no call after a broken one. An upsert in which nothing failed (no call broke, the
  stream of the object ended, the decrypt step wrote no diagnostic, both JSON properties
  parse) resolves, and one that resolves has made exactly these calls.
\<close>

theorem upsertSecret_replica_regions:
  assumes run: "upsertSecret env props (w, []) = (res, (w', tr))"
  shows "let desired = parsed (SecretReplicaRegions props);
             existing = existing_regions tr;
             toRemove = filter (\<lambda>n. n \<notin> set (map region desired)) (map Region existing);
             expected =
               (if toRemove \<noteq> []
                then [RemoveRegionsFromReplicationCommand (SecretName props) toRemove] else []) @
               (if desired \<noteq> []
                then [ReplicateSecretToRegionsCommand (SecretName props)
                        (map (\<lambda>r. (region r, kmsKeyId r)) desired)] else [])
         in set toRemove = set (map Region existing) - set (map region desired) \<and>
            prefix (filter is_region_call (map fst tr)) expected \<and>
            (\<not> isl res \<longrightarrow> filter is_region_call (map fst tr) = expected) \<and>
            \<not> list_ex broke (butlast tr) \<and>
            (\<not> list_ex broke tr \<and> \<not> list_ex noisy tr \<and> stream_failure tr = None \<and>
             \<not> malformed props \<longrightarrow>
               res = Inr () \<and> filter is_region_call (map fst tr) = expected)"
proof -
  let ?desired = "parsed (SecretReplicaRegions props)"
  let ?toRemove = "filter (\<lambda>n. n \<notin> set (map region ?desired))
                     (map Region (existing_regions tr))"
  let ?expected =
    "(if ?toRemove \<noteq> []
      then [RemoveRegionsFromReplicationCommand (SecretName props) ?toRemove] else []) @
     (if ?desired \<noteq> []
      then [ReplicateSecretToRegionsCommand (SecretName props)
              (map (\<lambda>r. (region r, kmsKeyId r)) ?desired)] else [])"
  let ?made = "filter is_region_call (map fst tr)"
  have removed: "set ?toRemove = set (map Region (existing_regions tr)) - set (map region ?desired)"
    by auto
  have made: "prefix ?made ?expected \<and> (\<not> isl res \<longrightarrow> ?made = ?expected)"
    using upsertSecret_shape0 [OF run]
  proof (cases rule: shape_cases)
    case (create obj out rest)
    from follows_filter [OF create(3), of is_region_call] create(1)
    show ?thesis
      by (simp add: region_calls_of_plan region_calls_def hasLength_def)
  next
    case (update obj out resp rest)
    from follows_filter [OF update(3), of is_region_call] update(1)
    show ?thesis
      by (cases "ReplicationStatus resp")
         (auto simp: region_calls_of_plan region_calls_def hasLength_def)
  qed auto
  have stops: "\<not> list_ex broke (butlast tr)"
    by (rule upsertSecret_stops_at_broken [OF run])
  have resolves: "\<not> list_ex broke tr \<and> \<not> list_ex noisy tr \<and> stream_failure tr = None \<and>
      \<not> malformed props \<longrightarrow> res = Inr () \<and> ?made = ?expected"
  proof
    assume "\<not> list_ex broke tr \<and> \<not> list_ex noisy tr \<and> stream_failure tr = None \<and>
      \<not> malformed props"
    then have "res = Inr ()" using upsertSecret_resolves [OF run] by blast
    with made show "res = Inr () \<and> ?made = ?expected" by simp
  qed
  from removed made stops resolves show ?thesis
    unfolding Let_def by blast
qed


text \<open>
  C8. When the decrypt step fails to run or writes anything to its diagnostic output,
  \<open>decodeSops\<close> rejects and returns no content; an upsert whose decrypt step did so
  rejects with the same error, and its only calls are the fetch of the object and the
  decrypt step: no call to the secret store is made.
\<close>

theorem upsertSecret_decode_fails_closed:
  assumes bad: "decode_fails x"
  shows "(env (ExecSops content ty) w0 = (x, w1) \<longrightarrow>
            decodeSops env content ty (w0, tr0) =
              (Inl (decode_error x), (w1, tr0 @ [(ExecSops content ty, x)]))) \<and>
         (upsertSecret env props (w, []) = (res, (w', tr)) \<and>
          (ExecSops content ty, x) \<in> set tr \<longrightarrow>
            res = Inl (decode_error x) \<and>
            map fst tr = [GetObjectCommand (S3BucketName props) (S3ObjectKey props),
                          ExecSops content ty])"
proof (rule conjI; rule impI)
  assume "env (ExecSops content ty) w0 = (x, w1)"
  with bad
  show "decodeSops env content ty (w0, tr0) =
          (Inl (decode_error x), (w1, tr0 @ [(ExecSops content ty, x)]))"
    by (cases x) (simp_all add: decodeSops_run decode_fails_def decode_error_def)
next
  assume a: "upsertSecret env props (w, []) = (res, (w', tr)) \<and>
             (ExecSops content ty, x) \<in> set tr"
  then have run: "upsertSecret env props (w, []) = (res, (w', tr))"
    and mem: "(ExecSops content ty, x) \<in> set tr" by simp_all
  from upsertSecret_shape0 [OF run]
  show "res = Inl (decode_error x) \<and>
        map fst tr = [GetObjectCommand (S3BucketName props) (S3ObjectKey props),
                      ExecSops content ty]"
  proof (cases rule: shape_cases)
    case (create obj out rest)
    from follows_subset [OF create(3)] plan_no_exec
    have "(ExecSops content ty, x) \<notin> set rest" by (metis fst_conv image_eqI set_map subsetD)
    with mem create(1,2) bad show ?thesis by (auto simp: decode_fails_def)
  next
    case (update obj out resp rest)
    from follows_subset [OF update(3)] plan_no_exec
    have "(ExecSops content ty, x) \<notin> set rest" by (metis fst_conv image_eqI set_map subsetD)
    with mem update(1,2) bad show ?thesis by (auto simp: decode_fails_def)
  qed (use mem bad in \<open>auto simp: decode_fails_def decode_error_def\<close>)
qed

text \<open>
  C9. In an upsert whose decrypt step resolved with output \<open>out\<close>, the secret string of
  every update or create call is \<open>trim (stdout out)\<close>: \<open>stdout out\<close> is this string between
  two runs of white space, and the string neither starts nor ends with white space. And the
  value is written: when the decrypt step wrote no diagnostic, the third call is the
  existence check and, unless that call broke, the fourth call is the write of
  \<open>trim (stdout out)\<close>, a create when the check answered "not found" and an update
  otherwise.
\<close>

theorem upsertSecret_writes_trimmed:
  assumes run: "upsertSecret env props (w, []) = (res, (w', tr))"
    and dec: "(ExecSops content ty, Inr out) \<in> set tr"
  shows "(\<forall>c r n d v k.
            (c, r) \<in> set tr \<and>
            (c = UpdateSecretCommand n d v k \<or> c = CreateSecretCommand n d v k) \<longrightarrow>
            v = trim (stdout out)) \<and>
         (\<exists>pre post. stdout out = pre @ trim (stdout out) @ post \<and>
            list_all isWhiteSpace pre \<and> list_all isWhiteSpace post) \<and>
         (trim (stdout out) \<noteq> [] \<longrightarrow>
            \<not> isWhiteSpace (hd (trim (stdout out))) \<and>
            \<not> isWhiteSpace (last (trim (stdout out)))) \<and>
         (stderr out = [] \<longrightarrow>
            3 \<le> length tr \<and> fst (tr ! 2) = DescribeSecretCommand (SecretName props) \<and>
            (broke (tr ! 2) \<or>
             4 \<le> length tr \<and>
             fst (tr ! 3) =
               (if isl (snd (tr ! 2))
                then CreateSecretCommand (SecretName props) (SecretDescription props)
                       (trim (stdout out)) (SecretKmsKeyArn props)
                else UpdateSecretCommand (SecretName props) (SecretDescription props)
                       (trim (stdout out)) (SecretKmsKeyArn props))))"
proof -
  have trimmed: "v = trim (stdout out)"
    if wr: "(c, r) \<in> set tr"
      and c: "c = UpdateSecretCommand n d v k \<or> c = CreateSecretCommand n d v k"
    for c r n d v k
    using upsertSecret_shape0 [OF run]
  proof (cases rule: shape_cases)
    case (create obj out' rest)
    from follows_subset [OF create(3)]
    have sub: "\<And>c r. (c, r) \<in> set rest \<Longrightarrow> c \<in> set (upsert_calls props (stdout out') False None None)"
      by (metis fst_conv image_eqI set_map subsetD)
    from sub plan_no_exec have "(ExecSops content ty, Inr out) \<notin> set rest" by blast
    with dec create(1) have "out' = out" by auto
    moreover from wr c create(1) sub have "c \<in> set (upsert_calls props (stdout out') False None None)"
      by auto
    ultimately show ?thesis using c plan_writes by blast
  next
    case (update obj out' resp rest)
    from follows_subset [OF update(3)]
    have sub: "\<And>c r. (c, r) \<in> set rest \<Longrightarrow>
        c \<in> set (upsert_calls props (stdout out') True (Tags resp) (ReplicationStatus resp))"
      by (metis fst_conv image_eqI set_map subsetD)
    from sub plan_no_exec have "(ExecSops content ty, Inr out) \<notin> set rest" by blast
    with dec update(1) have "out' = out" by auto
    moreover from wr c update(1) sub
    have "c \<in> set (upsert_calls props (stdout out') True (Tags resp) (ReplicationStatus resp))"
      by auto
    ultimately show ?thesis using c plan_writes by blast
  qed (use wr c in auto)
  have written: "3 \<le> length tr \<and> fst (tr ! 2) = DescribeSecretCommand (SecretName props) \<and>
            (broke (tr ! 2) \<or>
             4 \<le> length tr \<and>
             fst (tr ! 3) =
               (if isl (snd (tr ! 2))
                then CreateSecretCommand (SecretName props) (SecretDescription props)
                       (trim (stdout out)) (SecretKmsKeyArn props)
                else UpdateSecretCommand (SecretName props) (SecretDescription props)
                       (trim (stdout out)) (SecretKmsKeyArn props)))"
    if quiet: "stderr out = []"
    using upsertSecret_shape0 [OF run]
  proof (cases rule: shape_cases)
    case (describe obj out' e)
    then show ?thesis by (simp add: broke_def)
  next
    case (create obj out' rest)
    from follows_subset [OF create(3)] plan_no_exec
    have "(ExecSops content ty, Inr out) \<notin> set rest" by (metis fst_conv image_eqI set_map subsetD)
    with dec create(1) have same: "out' = out" by auto
    from create(5) obtain r0 rest' where "rest = (write_call props (stdout out') False, r0) # rest'"
      by blast
    with create(1) same show ?thesis by (simp add: write_call_def)
  next
    case (update obj out' resp rest)
    from follows_subset [OF update(3)] plan_no_exec
    have "(ExecSops content ty, Inr out) \<notin> set rest" by (metis fst_conv image_eqI set_map subsetD)
    with dec update(1) have same: "out' = out" by auto
    from update(5) obtain r0 rest' where "rest = (write_call props (stdout out') True, r0) # rest'"
      by blast
    with update(1) same show ?thesis by (simp add: write_call_def)
  qed (use dec quiet in auto)
  from trimmed written trim_decomposes [of "stdout out"] trim_ends [of "stdout out"]
  show ?thesis by blast
qed

text \<open>
  The tag-removal call of the handler, in general: with \<open>existing\<close> the tags of the
  describe response, it is made when some existing key is no desired key, and it passes
  all existing keys.
\<close>

lemma untag_calls_of_plan:
  "filter is_untag_call (upsert_calls props decoded a b c) =
     (if hasLength b \<and>
         filter (\<lambda>t. Key t \<notin> set (map fst (parsed (SecretTags props)))) (the b) \<noteq> []
      then [UntagResourceCommand (SecretName props) (map Key (the b))] else [])"
  by (simp add: upsert_calls_def write_call_def tag_calls_def policy_call_def region_calls_def)

lemma upsertSecret_untag_calls:
  assumes run: "upsertSecret env props (w, []) = (res, (w', tr))"
  shows "let existing = existing_tags tr;
             expected =
               (if filter (\<lambda>t. Key t \<notin> set (map fst (parsed (SecretTags props)))) existing \<noteq> []
                then [UntagResourceCommand (SecretName props) (map Key existing)] else [])
         in prefix (filter is_untag_call (map fst tr)) expected \<and>
            (\<not> isl res \<longrightarrow> filter is_untag_call (map fst tr) = expected)"
  using upsertSecret_shape0 [OF run]
proof (cases rule: shape_cases)
  case (create obj out rest)
  from follows_filter [OF create(3), of is_untag_call] create(1)
  show ?thesis
    by (simp add: Let_def untag_calls_of_plan hasLength_def)
next
  case (update obj out resp rest)
  from follows_filter [OF update(3), of is_untag_call] update(1)
  show ?thesis
    by (cases "Tags resp") (auto simp: Let_def untag_calls_of_plan hasLength_def)
qed (auto simp: Let_def)

section \<open>The example\<close>

lemmas run_defs =
  upsertSecret_def upsertSecret_tail_def await_def send_def resolve_def reject_def
  try_catch_def streamToString_def decodeSops_def parseOrEmpty_def whenever_def hasLength_def truthy_def
  on_secret_def blank_def trim_def isWhiteSpace_def put_tag_def add_replica_def Let_def

lemmas example_defs =
  example_props_def example_world_def example_secret_def example_after_def example_trace_def

lemma example_run:
  "upsertSecret store_env example_props (example_world, []) =
     (Inr (), (example_after, example_trace))"
  by (simp add: run_defs example_defs)

lemma refused_run:
  "upsertSecret (refuse is_tag_call ResourceNotFoundException store_env) example_props
     (example_world, []) =
     (Inl ResourceNotFoundException,
      (example_world\<lparr>secrets := (\<lambda>_. None)(''app'' \<mapsto>
         example_secret\<lparr>SecretString := [0x7B, 0x7D], secret_tags := []\<rparr>)\<rparr>,
       take 5 example_trace @
       [(TagResourceCommand ''app'' [\<lparr>Key = ''env'', Value = ''prod''\<rparr>],
         Inl ResourceNotFoundException)]))"
  by (simp add: run_defs example_defs refuse_def)

lemma noisy_run:
  "upsertSecret store_env example_props (noisy_world, []) =
     (Inl (SopsCommandFailed [0x65]),
      (noisy_world,
       [(GetObjectCommand ''bucket'' ''key'', Inr (blank\<lparr>Body := Readable [0x7B] None\<rparr>)),
        (ExecSops [0x7B] Json, Inr (blank\<lparr>stdout := [0x7B], stderr := [0x65]\<rparr>))]))"
  by (simp add: run_defs example_defs noisy_world_def)

text \<open>
  C1. The tag-removal call is to pass the keys present remotely and absent from the
  desired tags. At the example (remote tags \<open>env\<close> and \<open>team\<close>, desired tag \<open>env\<close>)
  those keys are \<open>team\<close> alone, and the call of the handler, the fifth of the trace,
  passes \<open>env\<close> and \<open>team\<close>: line 157 maps over \<^verbatim>\<open>existingTags\<close>, not over the
  \<^verbatim>\<open>tagsToRemove\<close> computed at line 150.
\<close>

theorem upsertSecret_untags_all_existing:
  "map fst example_trace ! 4 = UntagResourceCommand ''app'' [''env'', ''team''] \<and>
   snd (snd (upsertSecret store_env example_props (example_world, []))) = example_trace \<and>
   filter (\<lambda>k. k \<notin> set (map fst (parsed (SecretTags example_props))))
     (map Key (secret_tags example_secret)) = [''team'']"
  by (simp add: example_run) (simp add: example_defs parsed_def)

text \<open>
  C3 as stated fails: at the example, the describe call confirms that the secret exists,
  the resource-policy call \<^verbatim>\<open>DeleteResourcePolicyCommand\<close> is answered "not found",
  and the upsert resolves, after two further calls.
\<close>

theorem upsertSecret_tolerates_not_found:
  "fst (upsertSecret store_env example_props (example_world, [])) = Inr () \<and>
   example_trace ! 2 =
     (DescribeSecretCommand ''app'',
      Inr (blank\<lparr>Tags := Some (secret_tags example_secret),
                  ReplicationStatus := Some (replicas example_secret)\<rparr>)) \<and>
   example_trace ! 6 = (DeleteResourcePolicyCommand ''app'', Inl ResourceNotFoundException) \<and>
   snd (snd (upsertSecret store_env example_props (example_world, []))) = example_trace"
  by (simp add: example_run) (simp add: example_trace_def)

text \<open>C3 at a store that answers "not found" to the tag call.\<close>

theorem upsertSecret_not_found_aborts_witness:
  "fst (upsertSecret (refuse is_tag_call ResourceNotFoundException store_env) example_props
          (example_world, [])) = Inl ResourceNotFoundException \<and>
   last (snd (snd (upsertSecret (refuse is_tag_call ResourceNotFoundException store_env)
                     example_props (example_world, [])))) =
     (TagResourceCommand ''app'' [\<lparr>Key = ''env'', Value = ''prod''\<rparr>],
      Inl ResourceNotFoundException)"
  using upsertSecret_not_found_aborts [OF refused_run,
      of "TagResourceCommand ''app'' [\<lparr>Key = ''env'', Value = ''prod''\<rparr>]"]
  by (simp add: refused_run)

text \<open>C10 at four events: an unknown type and the three known ones.\<close>

theorem onEvent_dispatch_witness:
  "onEvent store_env (example_event ''Refresh'') (example_world, []) =
     (Inl (Error ''Failed''), (example_world, [])) \<and>
   onEvent store_env (example_event ''Create'') = handleCreate store_env (example_event ''Create'') \<and>
   onEvent store_env (example_event ''Update'') = handleUpdate store_env (example_event ''Update'') \<and>
   onEvent store_env (example_event ''Delete'') = handleDelete store_env (example_event ''Delete'')"
  using onEvent_dispatch [where event = "example_event ''Refresh''" and env = store_env
      and w = example_world and tr = "[]"]
    onEvent_dispatch [where event = "example_event ''Create''" and env = store_env]
    onEvent_dispatch [where event = "example_event ''Update''" and env = store_env]
    onEvent_dispatch [where event = "example_event ''Delete''" and env = store_env]
  by (simp add: example_event_def)

lemma example_delete:
  "handleDelete store_env (example_event ''Delete'') (example_world, []) =
     (Inr \<lparr>ResponsePhysicalResourceId = ''app''\<rparr>,
      (empty_world,
       [(DescribeSecretCommand ''app'',
         Inr (blank\<lparr>Tags := Some (secret_tags example_secret),
                     ReplicationStatus := Some (replicas example_secret)\<rparr>)),
        (RemoveRegionsFromReplicationCommand ''app'' [''eu-west-1'', ''us-east-1''], Inr blank),
        (DeleteSecretCommand ''app'' True, Inr blank)]))"
  by (simp add: handleDelete_store example_event_def example_world_def example_secret_def
        empty_world_def)

text \<open>C4 at a store without the secret, and at two deletes of the example secret.\<close>

theorem handleDelete_idempotent_witness:
  "handleDelete store_env (example_event ''Delete'') (empty_world, []) =
     (Inr \<lparr>ResponsePhysicalResourceId = ''app''\<rparr>,
      (empty_world, [(DescribeSecretCommand ''app'', Inl ResourceNotFoundException)])) \<and>
   fst (handleDelete store_env (example_event ''Delete'') (example_world, [])) =
     Inr \<lparr>ResponsePhysicalResourceId = ''app''\<rparr> \<and>
   handleDelete store_env (example_event ''Delete'')
     (fst (snd (handleDelete store_env (example_event ''Delete'') (example_world, []))), []) =
     (Inr \<lparr>ResponsePhysicalResourceId = ''app''\<rparr>,
      (empty_world, [(DescribeSecretCommand ''app'', Inl ResourceNotFoundException)]))"
  using handleDelete_idempotent [where env = store_env and event = "example_event ''Delete''"
      and w = empty_world and ?w1.0 = empty_world and tr = "[]" and v = example_world
      and ?r1.0 = "Inr \<lparr>ResponsePhysicalResourceId = ''app''\<rparr>" and ?v1.0 = empty_world
      and ?tr1.0 = "snd (snd (handleDelete store_env (example_event ''Delete'') (example_world, [])))"
      and ?r2.0 = "fst (handleDelete store_env (example_event ''Delete'') (empty_world, []))"
      and ?v2.0 = "fst (snd (handleDelete store_env (example_event ''Delete'') (empty_world, [])))"
      and ?tr2.0 = "snd (snd (handleDelete store_env (example_event ''Delete'') (empty_world, [])))"]
  by (simp add: example_delete)
     (simp add: example_event_def empty_world_def example_world_def prod_eq_iff)

text \<open>C5 at the example secret, which has two replica regions.\<close>

theorem handleDelete_regions_first_witness:
  "map fst (snd (snd (handleDelete store_env (example_event ''Delete'') (example_world, [])))) =
     [DescribeSecretCommand ''app'',
      RemoveRegionsFromReplicationCommand ''app'' [''eu-west-1'', ''us-east-1''],
      DeleteSecretCommand ''app'' True]"
proof -
  let ?ev = "example_event ''Delete''"
  let ?after = "example_world\<lparr>secrets := (secrets example_world)(''app'' \<mapsto>
      example_secret\<lparr>replicas := []\<rparr>)\<rparr>"
  have described: "store_env (DescribeSecretCommand (PhysicalResourceId ?ev)) example_world =
      (Inr (blank\<lparr>Tags := Some (secret_tags example_secret),
                    ReplicationStatus := Some (replicas example_secret)\<rparr>), example_world)"
    by (simp add: example_event_def example_world_def)
  have status: "ReplicationStatus (blank\<lparr>Tags := Some (secret_tags example_secret),
      ReplicationStatus := Some (replicas example_secret)\<rparr>) = Some (replicas example_secret)"
    by simp
  have some: "replicas example_secret \<noteq> []"
    by (simp add: example_secret_def)
  have removed: "store_env (RemoveRegionsFromReplicationCommand (PhysicalResourceId ?ev)
      (map Region (replicas example_secret))) example_world = (Inr blank, ?after)"
    by (simp add: example_event_def example_world_def example_secret_def on_secret_def)
  from handleDelete_regions_first [OF described status some removed example_delete]
  show ?thesis
    unfolding example_delete by (simp add: example_event_def example_secret_def)
qed

lemma example_run3:
  "fst (upsertSecret store_env example_props3 (example_world, [])) = Inr ()"
  "map fst (snd (snd (upsertSecret store_env example_props3 (example_world, [])))) =
     [GetObjectCommand ''bucket'' ''key'', ExecSops [0x7B] Json, DescribeSecretCommand ''app'',
      UpdateSecretCommand ''app'' None [0x7B, 0x7D] None,
      UntagResourceCommand ''app'' [''env'', ''team''],
      TagResourceCommand ''app'' [\<lparr>Key = ''env'', Value = ''prod''\<rparr>],
      DeleteResourcePolicyCommand ''app'',
      RemoveRegionsFromReplicationCommand ''app'' [''eu-west-1'', ''us-east-1'']]"
  by (simp_all add: run_defs example_defs example_props3_def)

text \<open>
  C6 at two runs of the handler on the store: at the example, where \<open>eu-west-1\<close> is
  removed and \<open>us-east-1\<close>, already present, is added again; and with no regions desired,
  where both regions are removed and none is added. Both runs resolve.
\<close>

theorem upsertSecret_replica_regions_witness:
  "upsertSecret store_env example_props (example_world, []) =
     (Inr (), (example_after, example_trace)) \<and>
   filter is_region_call
     (map fst (snd (snd (upsertSecret store_env example_props (example_world, []))))) =
     [RemoveRegionsFromReplicationCommand ''app'' [''eu-west-1''],
      ReplicateSecretToRegionsCommand ''app'' [(''us-east-1'', None)]] \<and>
   fst (upsertSecret store_env example_props3 (example_world, [])) = Inr () \<and>
   filter is_region_call
     (map fst (snd (snd (upsertSecret store_env example_props3 (example_world, []))))) =
     [RemoveRegionsFromReplicationCommand ''app'' [''eu-west-1'', ''us-east-1'']]"
proof -
  let ?run3 = "upsertSecret store_env example_props3 (example_world, [])"
  have third: "?run3 = (Inr (), (fst (snd ?run3), snd (snd ?run3)))"
    using example_run3(1) by (metis prod.collapse)
  have regions: "existing_regions example_trace = replicas example_secret"
    by (simp add: example_defs blank_def)
  have regions3: "existing_regions (snd (snd ?run3)) = replicas example_secret"
    by (simp add: run_defs example_defs example_props3_def)
  have resolved: "\<not> isl (Inr () :: error + unit)" by simp
  from upsertSecret_replica_regions [OF example_run]
  have "filter is_region_call (map fst example_trace) =
     [RemoveRegionsFromReplicationCommand ''app'' [''eu-west-1''],
      ReplicateSecretToRegionsCommand ''app'' [(''us-east-1'', None)]]"
    unfolding Let_def regions
    by (simp add: example_props_def example_secret_def parsed_def)
  moreover from upsertSecret_replica_regions [OF third]
  have "filter is_region_call (map fst (snd (snd ?run3))) =
     [RemoveRegionsFromReplicationCommand ''app'' [''eu-west-1'', ''us-east-1'']]"
    unfolding Let_def regions3
    by (simp add: example_props3_def example_props_def example_secret_def parsed_def)
  ultimately show ?thesis
    by (simp add: example_run example_run3(1))
qed


text \<open>C8 at a decrypt step that prints a diagnostic next to its output.\<close>

theorem upsertSecret_decode_fails_closed_witness:
  "decodeSops store_env [0x7B] Json (noisy_world, []) =
     (Inl (SopsCommandFailed [0x65]),
      (noisy_world, [(ExecSops [0x7B] Json, Inr (blank\<lparr>stdout := [0x7B], stderr := [0x65]\<rparr>))])) \<and>
   upsertSecret store_env example_props (noisy_world, []) =
     (Inl (SopsCommandFailed [0x65]),
      (noisy_world,
       [(GetObjectCommand ''bucket'' ''key'', Inr (blank\<lparr>Body := Readable [0x7B] None\<rparr>)),
        (ExecSops [0x7B] Json, Inr (blank\<lparr>stdout := [0x7B], stderr := [0x65]\<rparr>))]))"
  using upsertSecret_decode_fails_closed
    [where x = "Inr (blank\<lparr>stdout := [0x7B], stderr := [0x65]\<rparr>)" and env = store_env
       and content = "[0x7B]" and ty = Json and ?w0.0 = noisy_world and ?w1.0 = noisy_world
       and ?tr0.0 = "[]" and props = example_props and w = noisy_world
       and res = "Inl (SopsCommandFailed [0x65])" and w' = noisy_world]
  by (simp add: noisy_run)
     (simp add: decode_fails_def decode_error_def blank_def noisy_world_def example_world_def)

text \<open>
  C9 at the run of the handler on the example: the decrypt step prints \<open>" {}\n"\<close>, the
  existence check resolves, and the fourth call is the update that writes \<open>"{}"\<close>.
\<close>

theorem upsertSecret_writes_trimmed_witness:
  "(ExecSops [0x7B] Json, Inr (blank\<lparr>stdout := [0x20, 0x7B, 0x7D, 0x0A], stderr := []\<rparr>))
     \<in> set (snd (snd (upsertSecret store_env example_props (example_world, [])))) \<and>
   snd (snd (upsertSecret store_env example_props (example_world, []))) ! 3 =
     (UpdateSecretCommand ''app'' None [0x7B, 0x7D] None, Inr blank) \<and>
   trim [0x20, 0x7B, 0x7D, 0x0A] = [0x7B, 0x7D] \<and>
   \<not> isWhiteSpace 0x7B \<and> \<not> isWhiteSpace 0x7D \<and> isWhiteSpace 0x20 \<and> isWhiteSpace 0x0A"
proof -
  let ?out = "blank\<lparr>stdout := [0x20, 0x7B, 0x7D, 0x0A], stderr := []\<rparr>"
  have dec: "(ExecSops [0x7B] Json, Inr ?out) \<in> set example_trace"
    by (simp add: example_trace_def)
  have quiet: "stderr ?out = []" by simp
  have third: "example_trace ! 2 =
      (DescribeSecretCommand ''app'',
       Inr (blank\<lparr>Tags := Some (secret_tags example_secret),
                   ReplicationStatus := Some (replicas example_secret)\<rparr>))"
    by (simp add: example_trace_def)
  have fourth: "example_trace ! 3 = (UpdateSecretCommand ''app'' None [0x7B, 0x7D] None, Inr blank)"
    by (simp add: example_trace_def)
  have white: "\<not> isWhiteSpace 0x7B \<and> \<not> isWhiteSpace 0x7D \<and> isWhiteSpace 0x20 \<and> isWhiteSpace 0x0A"
    by (simp add: isWhiteSpace_def)
  from upsertSecret_writes_trimmed [OF example_run dec] quiet
  have "fst (example_trace ! 3) =
      (if isl (snd (example_trace ! 2))
       then CreateSecretCommand (SecretName example_props) (SecretDescription example_props)
              (trim (stdout ?out)) (SecretKmsKeyArn example_props)
       else UpdateSecretCommand (SecretName example_props) (SecretDescription example_props)
              (trim (stdout ?out)) (SecretKmsKeyArn example_props))"
    unfolding third by (simp add: broke_def)
  then have "trim [0x20, 0x7B, 0x7D, 0x0A] = [0x7B, 0x7D]"
    unfolding third fourth by simp
  with dec fourth white show ?thesis
    by (simp add: example_run)
qed

section \<open>Tags on the secret store\<close>































end
